theory Spec2Isabelle
  imports Complex_Main "HOL-Library.Log_Nat"
begin

section \<open>Configuration\<close>

text \<open>
  The constants of \<^verbatim>\<open>src/app.py\<close>. The HTTPS variant
  (\<^verbatim>\<open>src/app-https-requires-certbot.py\<close>) has its own two retention delays;
  they carry the suffix \<open>_https\<close>.
\<close>

definition DOWNLOAD_DIR :: string where
  "DOWNLOAD_DIR = ''downloads''"

definition DEFAULT_AUDIO_BITRATE :: string where
  "DEFAULT_AUDIO_BITRATE = ''192''"

definition TOKEN_EXPIRE_SECONDS :: nat where
  "TOKEN_EXPIRE_SECONDS = 300"

definition FILE_DELETE_SECONDS :: nat where
  "FILE_DELETE_SECONDS = 360"

definition TOKEN_EXPIRE_SECONDS_https :: nat where
  "TOKEN_EXPIRE_SECONDS_https = 5"

definition FILE_DELETE_SECONDS_https :: nat where
  "FILE_DELETE_SECONDS_https = 10"

definition MAX_DOWNLOADS_PER_DAY :: int where
  "MAX_DOWNLOADS_PER_DAY = 10"

section \<open>Global state\<close>

text \<open>
  \<^verbatim>\<open>info["status"]\<close> only ever holds one of five string literals; they are the
  constructors of \<open>status\<close>.
\<close>

datatype status = Queued | Downloading | Processing | Done | Error

text \<open>
  The dict stored under a token in \<^verbatim>\<open>DOWNLOADS\<close>. Python numbers (ints and floats)
  are rationals: every int and every finite double is one. \<open>None\<close> is Python's
  \<^verbatim>\<open>None\<close>.
\<close>

record info =
  i_token :: string
  i_ip :: string
  i_video_id :: string
  i_format :: string
  i_status :: status
  i_percent :: rat
  i_speed :: "rat option"
  i_eta :: "rat option"
  i_downloaded_bytes :: rat
  i_total_bytes :: "rat option"
  i_started :: rat
  i_file :: "string option"
  i_error :: "string option"

text \<open>The dict stored under a client address in \<^verbatim>\<open>IP_LIMITS\<close>.\<close>

record limit_entry =
  e_date :: string
  e_count :: int

text \<open>
  A thread started by \<^verbatim>\<open>schedule_token_expire\<close> or \<^verbatim>\<open>schedule_delete\<close>: it sleeps
  for the delay, then pops the token or removes the file.
\<close>

datatype timer = TokenExpire string nat | FileDelete string nat

text \<open>The arguments of one \<^verbatim>\<open>executor.submit(download_worker, ...)\<close>.\<close>

record job =
  j_token :: string
  j_video_id :: string
  j_res :: "string option"
  j_audio :: string
  j_fmt :: string
  j_ip :: string

record state =
  DOWNLOADS :: "string \<rightharpoonup> info"
  IP_LIMITS :: "string \<rightharpoonup> limit_entry"
  timers :: "timer list"
  submitted :: "job list"

text \<open>The state at start-up: \<^verbatim>\<open>DOWNLOADS = {}\<close>, \<^verbatim>\<open>IP_LIMITS = {}\<close>, nothing scheduled.\<close>

definition state0 :: state where
  "state0 = \<lparr>DOWNLOADS = Map.empty, IP_LIMITS = Map.empty, timers = [], submitted = []\<rparr>"

section \<open>Helpers\<close>

text \<open>
  \<^verbatim>\<open>check_ip_limit(ip)\<close>. The result of \<^verbatim>\<open>today()\<close> is the parameter \<open>today\<close>;
  the whole body runs under the lock, so it is one state transition. A stored entry is a
  two-key dict, hence truthy: \<^verbatim>\<open>not entry\<close> holds only when the address has no entry.
\<close>

definition check_ip_limit :: "string \<Rightarrow> string \<Rightarrow> state \<Rightarrow> bool \<times> state" where
  "check_ip_limit today ip s =
     (case IP_LIMITS s ip of
        None \<Rightarrow>
          (True, s\<lparr>IP_LIMITS := (IP_LIMITS s)(ip \<mapsto> \<lparr>e_date = today, e_count = 1\<rparr>)\<rparr>)
      | Some entry \<Rightarrow>
          if e_date entry \<noteq> today then
            (True, s\<lparr>IP_LIMITS := (IP_LIMITS s)(ip \<mapsto> \<lparr>e_date = today, e_count = 1\<rparr>)\<rparr>)
          else if e_count entry \<ge> MAX_DOWNLOADS_PER_DAY then
            (False, s)
          else
            (True, s\<lparr>IP_LIMITS := (IP_LIMITS s)(ip \<mapsto> entry\<lparr>e_count := e_count entry + 1\<rparr>)\<rparr>))"

text \<open>
  Successive calls of \<^verbatim>\<open>check_ip_limit\<close> on one UTC day, one per listed client
  address, in order; the result lists the decisions.
\<close>

fun check_ip_limits :: "string \<Rightarrow> string list \<Rightarrow> state \<Rightarrow> bool list" where
  "check_ip_limits today [] s = []"
| "check_ip_limits today (ip # ips) s =
     fst (check_ip_limit today ip s) # check_ip_limits today ips (snd (check_ip_limit today ip s))"

text \<open>How many of the calls made by \<open>ip\<close> were admitted.\<close>

definition admitted :: "string \<Rightarrow> string list \<Rightarrow> bool list \<Rightarrow> nat" where
  "admitted ip ips oks = length (filter (\<lambda>(i, ok). i = ip \<and> ok) (zip ips oks))"

text \<open>
  The condition of the first branch, \<^verbatim>\<open>not entry or entry["date"] != today()\<close>: the
  client has no entry of the current day.
\<close>

definition first_today :: "string \<Rightarrow> string \<Rightarrow> state \<Rightarrow> bool" where
  "first_today today ip s = (case IP_LIMITS s ip of None \<Rightarrow> True | Some e \<Rightarrow> e_date e \<noteq> today)"

text \<open>How many more calls of \<open>ip\<close> the limiter will admit on the day \<open>today\<close>.\<close>

definition remaining :: "string \<Rightarrow> string \<Rightarrow> state \<Rightarrow> nat" where
  "remaining today ip s =
     (case IP_LIMITS s ip of
        None \<Rightarrow> nat MAX_DOWNLOADS_PER_DAY
      | Some e \<Rightarrow>
          if e_date e \<noteq> today then nat MAX_DOWNLOADS_PER_DAY
          else nat (MAX_DOWNLOADS_PER_DAY - e_count e))"

section \<open>Python values\<close>

text \<open>
  Truthiness of a number or \<^verbatim>\<open>None\<close> and of a string or \<^verbatim>\<open>None\<close>, and
  \<^verbatim>\<open>a or b\<close> on numbers.
\<close>

definition truthy_str :: "string option \<Rightarrow> bool" where
  "truthy_str x = (case x of None \<Rightarrow> False | Some t \<Rightarrow> t \<noteq> [])"

definition truthy :: "rat option \<Rightarrow> bool" where
  "truthy x = (case x of None \<Rightarrow> False | Some n \<Rightarrow> n \<noteq> 0)"

definition py_or :: "rat option \<Rightarrow> rat option \<Rightarrow> rat option" where
  "py_or a b = (if truthy a then a else b)"

text \<open>
  A float operation is the exact operation followed by the rounding of its result to the
  nearest double; the rounding is the parameter \<open>fl\<close> of every function that computes
  with floats, and \<open>double\<close> below is the one of the interpreter.
  \<^verbatim>\<open>round(x, 2)\<close> on a float rounds its exact value to two decimals, ties to even,
  and returns the nearest double.
\<close>

definition round_half_even :: "rat \<Rightarrow> int" where
  "round_half_even x =
     (let f = \<lfloor>x\<rfloor>; d = x - of_int f
      in if d < 1 / 2 then f else if 1 / 2 < d then f + 1 else if even f then f else f + 1)"

definition py_round2 :: "(rat \<Rightarrow> rat) \<Rightarrow> rat \<Rightarrow> rat" where
  "py_round2 fl x = fl (of_int (round_half_even (x * 100)) / 100)"

text \<open>
  The nearest IEEE 754 double of a rational, ties to even: a significand of 53 bits times
  a power of two. Overflow and subnormal numbers are left out; byte counts, percentages
  and clock readings are far from both.
\<close>

definition pow2 :: "int \<Rightarrow> rat" where
  "pow2 e = (if 0 \<le> e then 2 ^ nat e else 1 / 2 ^ nat (- e))"

definition ilog2 :: "rat \<Rightarrow> int" where
  "ilog2 x =
     (let (p, q) = quotient_of x; k = bitlen p - bitlen q
      in if pow2 k \<le> x then k else k - 1)"

definition double :: "rat \<Rightarrow> rat" where
  "double x =
     (if x = 0 then 0
      else let e = ilog2 \<bar>x\<bar> - 52
           in sgn x * of_int (round_half_even (\<bar>x\<bar> / pow2 e)) * pow2 e)"

text \<open>\<^verbatim>\<open>str.lower()\<close> on ASCII letters; every other character is kept.\<close>

definition lower_char :: "char \<Rightarrow> char" where
  "lower_char c =
     (let n = (of_char c :: nat) in if 65 \<le> n \<and> n \<le> 90 then char_of (n + 32) else c)"

definition lower :: "string \<Rightarrow> string" where
  "lower xs = map lower_char xs"

text \<open>\<^verbatim>\<open>os.path.join(a, b)\<close> on POSIX, for a directory name \<open>a\<close> without a trailing slash.\<close>

definition path_join :: "string \<Rightarrow> string \<Rightarrow> string" where
  "path_join a b = (case b of c # _ \<Rightarrow> if c = CHR ''/'' then b else a @ ''/'' @ b | [] \<Rightarrow> a @ ''/'')"

text \<open>
  The one exception the modelled statements can raise themselves: the \<^verbatim>\<open>KeyError\<close> of
  a dict lookup, with the missing key. Its \<^verbatim>\<open>str\<close> is the key between quotes.
\<close>

datatype exn = KeyError string

definition str_exn :: "exn \<Rightarrow> string" where
  "str_exn e = (case e of KeyError k \<Rightarrow> [CHR 0x27] @ k @ [CHR 0x27])"

definition bind_exn :: "exn + 'a \<Rightarrow> ('a \<Rightarrow> exn + 'b) \<Rightarrow> exn + 'b" where
  "bind_exn m f = (case m of Inl e \<Rightarrow> Inl e | Inr a \<Rightarrow> f a)"

text \<open>
  \<^verbatim>\<open>DOWNLOADS[token][key] = value\<close>: the lookup of \<open>token\<close> raises \<^verbatim>\<open>KeyError\<close> when
  the token is absent; \<open>f\<close> is the field update.
\<close>

definition setitem :: "string \<Rightarrow> (info \<Rightarrow> info) \<Rightarrow> state \<Rightarrow> exn + state" where
  "setitem token f s =
     (case DOWNLOADS s token of
        None \<Rightarrow> Inl (KeyError token)
      | Some i \<Rightarrow> Inr (s\<lparr>DOWNLOADS := (DOWNLOADS s)(token \<mapsto> f i)\<rparr>))"

section \<open>Expiry timers\<close>

definition schedule_delete :: "string \<Rightarrow> nat \<Rightarrow> state \<Rightarrow> state" where
  "schedule_delete path delay s = s\<lparr>timers := timers s @ [FileDelete path delay]\<rparr>"

definition schedule_token_expire :: "string \<Rightarrow> nat \<Rightarrow> state \<Rightarrow> state" where
  "schedule_token_expire token delay s = s\<lparr>timers := timers s @ [TokenExpire token delay]\<rparr>"

text \<open>
  What an armed timer does to the registry when its sleep ends:
  \<^verbatim>\<open>DOWNLOADS.pop(token, None)\<close> for a token timer; a file timer touches the disk only.
\<close>

definition fire :: "timer \<Rightarrow> state \<Rightarrow> state" where
  "fire t s =
     (case t of
        TokenExpire token delay \<Rightarrow> s\<lparr>DOWNLOADS := (DOWNLOADS s)(token := None)\<rparr>
      | FileDelete path delay \<Rightarrow> s)"

section \<open>Download worker\<close>

text \<open>
  The dict \<open>d\<close> that the engine passes to a progress hook. \<open>None\<close> is a missing key or
  \<^verbatim>\<open>None\<close>; for \<^verbatim>\<open>downloaded_bytes\<close> it is a missing key (the engine never passes
  \<^verbatim>\<open>None\<close> there).
\<close>

record event =
  d_status :: string
  d_total_bytes :: "rat option"
  d_total_bytes_estimate :: "rat option"
  d_downloaded_bytes :: "rat option"
  d_speed :: "rat option"
  d_eta :: "rat option"

definition output_path :: "string \<Rightarrow> string \<Rightarrow> string" where
  "output_path token fmt = path_join DOWNLOAD_DIR (token @ ''.'' @ fmt)"

text \<open>
  \<^verbatim>\<open>progress_hook(d)\<close>, the closure of \<^verbatim>\<open>download_worker\<close> over \<open>token\<close>; the same in
  both files. One call is one critical section.
\<close>

definition progress_hook :: "(rat \<Rightarrow> rat) \<Rightarrow> string \<Rightarrow> event \<Rightarrow> state \<Rightarrow> state" where
  "progress_hook fl token d s =
     (case DOWNLOADS s token of
        None \<Rightarrow> s
      | Some info \<Rightarrow>
          if d_status d = ''downloading'' then
            (let total = py_or (d_total_bytes d) (d_total_bytes_estimate d);
                 downloaded = (case d_downloaded_bytes d of None \<Rightarrow> 0 | Some n \<Rightarrow> n)
             in s\<lparr>DOWNLOADS := (DOWNLOADS s)(token \<mapsto> info
                  \<lparr>i_status := Downloading,
                   i_downloaded_bytes := downloaded,
                   i_total_bytes := total,
                   i_speed := d_speed d,
                   i_eta := d_eta d,
                   i_percent :=
                     (case total of
                        None \<Rightarrow> 0
                      | Some t \<Rightarrow>
                          if t = 0 then 0
                          else py_round2 fl (fl (fl (downloaded / t) * 100)))\<rparr>)\<rparr>)
          else if d_status d = ''finished'' then
            s\<lparr>DOWNLOADS := (DOWNLOADS s)(token \<mapsto> info\<lparr>i_status := Processing, i_percent := 100\<rparr>)\<rparr>
          else s)"

text \<open>
  What the engine does in \<^verbatim>\<open>ydl.download([url])\<close>, as far as the worker sees it: the
  progress events it emits, in order, and then whether it returns or raises.
\<close>

datatype engine_result = Returned | Raised string

fun run_hooks :: "(rat \<Rightarrow> rat) \<Rightarrow> string \<Rightarrow> event list \<Rightarrow> state \<Rightarrow> state" where
  "run_hooks fl token [] s = s"
| "run_hooks fl token (d # ds) s = run_hooks fl token ds (progress_hook fl token d s)"

text \<open>
  \<^verbatim>\<open>src/app.py\<close>: the rest of the \<^verbatim>\<open>try\<close> block once the engine has returned, and
  the \<^verbatim>\<open>except\<close> handler.
\<close>

definition worker_try :: "string \<Rightarrow> string \<Rightarrow> state \<Rightarrow> exn + state" where
  "worker_try token fmt s =
     bind_exn
       (if DOWNLOADS s token \<noteq> None then
          bind_exn (setitem token (\<lambda>i. i\<lparr>i_status := Done\<rparr>) s)
            (setitem token (\<lambda>i. i\<lparr>i_file := Some (output_path token fmt)\<rparr>))
        else Inr s)
       (\<lambda>s1. Inr (schedule_delete (output_path token fmt) FILE_DELETE_SECONDS
                  (schedule_token_expire token TOKEN_EXPIRE_SECONDS s1)))"

definition worker_except :: "string \<Rightarrow> string \<Rightarrow> state \<Rightarrow> exn + state" where
  "worker_except token msg s =
     (if DOWNLOADS s token \<noteq> None then
        bind_exn (setitem token (\<lambda>i. i\<lparr>i_status := Error\<rparr>) s)
          (setitem token (\<lambda>i. i\<lparr>i_error := Some msg\<rparr>))
      else Inr s)"

text \<open>
  \<^verbatim>\<open>download_worker\<close> of \<^verbatim>\<open>src/app.py\<close>. \<open>Inl e\<close> is an exception that leaves the
  worker. Whatever the \<^verbatim>\<open>try\<close> block raises goes to the handler, which runs on the
  state the block left behind.
\<close>

definition download_worker ::
  "(rat \<Rightarrow> rat) \<Rightarrow> string \<Rightarrow> string \<Rightarrow> event list \<Rightarrow> engine_result \<Rightarrow> state \<Rightarrow> exn + state" where
  "download_worker fl token fmt events outcome s =
     (let s1 = run_hooks fl token events s
      in case outcome of
           Raised msg \<Rightarrow> worker_except token msg s1
         | Returned \<Rightarrow>
             (case worker_try token fmt s1 of
                Inr s2 \<Rightarrow> Inr s2
              | Inl e \<Rightarrow> worker_except token (str_exn e) s1))"

text \<open>The same three in \<^verbatim>\<open>src/app-https-requires-certbot.py\<close>.\<close>

definition worker_try_https :: "string \<Rightarrow> string \<Rightarrow> state \<Rightarrow> exn + state" where
  "worker_try_https token fmt s =
     bind_exn
       (bind_exn (setitem token (\<lambda>i. i\<lparr>i_status := Done\<rparr>) s)
          (setitem token (\<lambda>i. i\<lparr>i_file := Some (output_path token fmt)\<rparr>)))
       (\<lambda>s1. Inr (schedule_token_expire token TOKEN_EXPIRE_SECONDS_https
                  (schedule_delete (output_path token fmt) FILE_DELETE_SECONDS_https s1)))"

definition worker_except_https :: "string \<Rightarrow> string \<Rightarrow> state \<Rightarrow> exn + state" where
  "worker_except_https token msg s =
     bind_exn (setitem token (\<lambda>i. i\<lparr>i_status := Error\<rparr>) s)
       (setitem token (\<lambda>i. i\<lparr>i_error := Some msg\<rparr>))"

definition download_worker_https ::
  "(rat \<Rightarrow> rat) \<Rightarrow> string \<Rightarrow> string \<Rightarrow> event list \<Rightarrow> engine_result \<Rightarrow> state \<Rightarrow> exn + state" where
  "download_worker_https fl token fmt events outcome s =
     (let s1 = run_hooks fl token events s
      in case outcome of
           Raised msg \<Rightarrow> worker_except_https token msg s1
         | Returned \<Rightarrow>
             (case worker_try_https token fmt s1 of
                Inr s2 \<Rightarrow> Inr s2
              | Inl e \<Rightarrow> worker_except_https token (str_exn e) s1))"

section \<open>Routes\<close>

text \<open>
  What a route handler returns: \<^verbatim>\<open>abort(code)\<close>, an error body with its status code,
  the body of an accepted submission, the body of a progress report, or
  \<^verbatim>\<open>send_file(path)\<close>. \<open>WaitLoop token\<close> stands for a \<^verbatim>\<open>not-json\<close> submission
  that has registered its job and goes on to poll the registry until the job ends.
\<close>

record progress_body =
  p_token :: string
  p_status :: status
  p_percent :: rat
  p_speed_bps :: "rat option"
  p_eta_seconds :: "rat option"
  p_downloaded_bytes :: rat
  p_total_bytes :: "rat option"
  p_format :: string
  p_elapsed :: rat
  p_ready :: bool
  p_error :: "string option"

datatype response =
    Abort nat
  | JsonError string nat
  | JsonQueued string
  | JsonProgress progress_body
  | SendFile "string option"
  | WaitLoop string

fun http_code :: "response \<Rightarrow> nat" where
  "http_code (Abort c) = c"
| "http_code (JsonError m c) = c"
| "http_code (JsonQueued t) = 200"
| "http_code (JsonProgress b) = 200"
| "http_code (SendFile f) = 200"
| "http_code (WaitLoop t) = 200"

text \<open>The status codes behind the error names of the specification.\<close>

definition BadRequest :: nat where "BadRequest = 400"
definition Forbidden :: nat where "Forbidden = 403"
definition NotFound :: nat where "NotFound = 404"
definition Conflict :: nat where "Conflict = 409"
definition RateLimited :: nat where "RateLimited = 429"

text \<open>
  The query of \<^verbatim>\<open>/watch\<close>: \<open>None\<close> is a parameter that is not in the query string,
  \<open>q_not_json\<close> is \<^verbatim>\<open>"not-json" in request.args\<close>.
\<close>

record watch_request =
  q_v :: "string option"
  q_not_json :: bool
  q_res :: "string option"
  q_audio :: "string option"
  q_format :: "string option"
  q_token :: "string option"
  q_remote_addr :: string

text \<open>
  The rejection idiom of \<^verbatim>\<open>watch\<close> in \<^verbatim>\<open>src/app.py\<close>:
  \<^verbatim>\<open>if not_json: abort(code)\<close>, else the JSON error with the code.
\<close>

definition reject :: "bool \<Rightarrow> string \<Rightarrow> nat \<Rightarrow> response" where
  "reject not_json msg code = (if not_json then Abort code else JsonError msg code)"

text \<open>\<^verbatim>\<open>request.args.get("format", "mp4").lower()\<close>.\<close>

definition requested_format :: "watch_request \<Rightarrow> string" where
  "requested_format r = lower (case q_format r of None \<Rightarrow> ''mp4'' | Some f \<Rightarrow> f)"

text \<open>\<^verbatim>\<open>request.args.get("token") or uuid.uuid4().hex\<close>.\<close>

definition or_uuid :: "string option \<Rightarrow> string \<Rightarrow> string" where
  "or_uuid tok uuid = (case tok of None \<Rightarrow> uuid | Some t \<Rightarrow> if t = [] then uuid else t)"

definition new_info :: "string \<Rightarrow> string \<Rightarrow> string \<Rightarrow> string \<Rightarrow> rat \<Rightarrow> info" where
  "new_info token ip video_id fmt now =
     \<lparr>i_token = token, i_ip = ip, i_video_id = video_id, i_format = fmt,
      i_status = Queued, i_percent = 0, i_speed = None, i_eta = None,
      i_downloaded_bytes = 0, i_total_bytes = None, i_started = now,
      i_file = None, i_error = None\<rparr>"

text \<open>
  \<^verbatim>\<open>watch()\<close> of \<^verbatim>\<open>src/app.py\<close>, up to the point where the job is handed to the
  executor. \<open>today\<close> is \<^verbatim>\<open>today()\<close>, \<open>uuid\<close> is \<^verbatim>\<open>uuid.uuid4().hex\<close>, \<open>now\<close> is
  \<^verbatim>\<open>time.time()\<close>.
\<close>

definition watch :: "string \<Rightarrow> string \<Rightarrow> rat \<Rightarrow> watch_request \<Rightarrow> state \<Rightarrow> response \<times> state" where
  "watch today uuid now r s =
     (case q_v r of
        None \<Rightarrow> (reject (q_not_json r) ''Missing v'' 400, s)
      | Some video_id \<Rightarrow>
          if video_id = [] then (reject (q_not_json r) ''Missing v'' 400, s)
          else
            let ip = q_remote_addr r;
                (ok, s1) = check_ip_limit today ip s
            in if \<not> ok then (reject (q_not_json r) ''Daily limit reached'' 429, s1)
               else
                 let res = q_res r;
                     audio = (case q_audio r of None \<Rightarrow> DEFAULT_AUDIO_BITRATE | Some a \<Rightarrow> a);
                     fmt = requested_format r;
                     token = or_uuid (q_token r) uuid
                 in if fmt \<noteq> ''mp4'' \<and> fmt \<noteq> ''webm'' then
                      (reject (q_not_json r) ''Invalid format'' 400, s1)
                    else if DOWNLOADS s1 token \<noteq> None then
                      (reject (q_not_json r) ''Token in use'' 409, s1)
                    else
                      (if q_not_json r then WaitLoop token else JsonQueued token,
                       s1\<lparr>DOWNLOADS := (DOWNLOADS s1)(token \<mapsto> new_info token ip video_id fmt now),
                          submitted := submitted s1 @
                            [\<lparr>j_token = token, j_video_id = video_id, j_res = res,
                              j_audio = audio, j_fmt = fmt, j_ip = ip\<rparr>]\<rparr>))"

text \<open>
  \<^verbatim>\<open>watch()\<close> of \<^verbatim>\<open>src/app-https-requires-certbot.py\<close>: the same checks in the same
  order, every rejection an \<^verbatim>\<open>abort\<close>.
\<close>

definition watch_https :: "string \<Rightarrow> string \<Rightarrow> rat \<Rightarrow> watch_request \<Rightarrow> state \<Rightarrow> response \<times> state" where
  "watch_https today uuid now r s =
     (case q_v r of
        None \<Rightarrow> (Abort 400, s)
      | Some video_id \<Rightarrow>
          if video_id = [] then (Abort 400, s)
          else
            let ip = q_remote_addr r;
                (ok, s1) = check_ip_limit today ip s
            in if \<not> ok then (Abort 429, s1)
               else
                 let res = q_res r;
                     audio = (case q_audio r of None \<Rightarrow> DEFAULT_AUDIO_BITRATE | Some a \<Rightarrow> a);
                     fmt = requested_format r;
                     token = or_uuid (q_token r) uuid
                 in if fmt \<noteq> ''mp4'' \<and> fmt \<noteq> ''webm'' then (Abort 400, s1)
                    else if DOWNLOADS s1 token \<noteq> None then (Abort 409, s1)
                    else
                      (if q_not_json r then WaitLoop token else JsonQueued token,
                       s1\<lparr>DOWNLOADS := (DOWNLOADS s1)(token \<mapsto> new_info token ip video_id fmt now),
                          submitted := submitted s1 @
                            [\<lparr>j_token = token, j_video_id = video_id, j_res = res,
                              j_audio = audio, j_fmt = fmt, j_ip = ip\<rparr>]\<rparr>))"

text \<open>
  One round of the polling loop of a \<^verbatim>\<open>not-json\<close> submission in \<^verbatim>\<open>src/app.py\<close>:
  \<open>Some\<close> response ends the loop, \<open>None\<close> sleeps and polls again.
\<close>

definition wait_poll :: "string \<Rightarrow> state \<Rightarrow> response option" where
  "wait_poll token s =
     (case DOWNLOADS s token of
        None \<Rightarrow> Some (Abort 410)
      | Some info \<Rightarrow>
          if i_status info = Done \<and> truthy_str (i_file info) then Some (SendFile (i_file info))
          else if i_status info = Error then Some (Abort 500)
          else None)"

text \<open>
  \<^verbatim>\<open>progress()\<close>; \<open>tok\<close> is \<^verbatim>\<open>request.args.get("token")\<close>, \<open>ip\<close> is the requester's
  address, \<open>now\<close> is \<^verbatim>\<open>time.time()\<close>.
\<close>

definition progress :: "(rat \<Rightarrow> rat) \<Rightarrow> rat \<Rightarrow> string option \<Rightarrow> string \<Rightarrow> state \<Rightarrow> response" where
  "progress fl now tok ip s =
     (case tok of
        None \<Rightarrow> JsonError ''Missing token'' 400
      | Some token \<Rightarrow>
          if token = [] then JsonError ''Missing token'' 400
          else
            (case DOWNLOADS s token of
              None \<Rightarrow> JsonError ''Invalid or expired token'' 404
            | Some info \<Rightarrow>
                if i_ip info \<noteq> ip then JsonError ''Forbidden'' 403
                else JsonProgress
                  \<lparr>p_token = token, p_status = i_status info, p_percent = i_percent info,
                   p_speed_bps = i_speed info, p_eta_seconds = i_eta info,
                   p_downloaded_bytes = i_downloaded_bytes info,
                   p_total_bytes = i_total_bytes info, p_format = i_format info,
                   p_elapsed = py_round2 fl (fl (now - i_started info)),
                   p_ready = (i_status info = Done), p_error = i_error info\<rparr>))"

text \<open>\<^verbatim>\<open>download()\<close> of \<^verbatim>\<open>src/app.py\<close>.\<close>

definition download :: "string option \<Rightarrow> string \<Rightarrow> state \<Rightarrow> response" where
  "download tok ip s =
     (case tok of
        None \<Rightarrow> JsonError ''Missing token'' 400
      | Some token \<Rightarrow>
          if token = [] then JsonError ''Missing token'' 400
          else
            (case DOWNLOADS s token of
              None \<Rightarrow> JsonError ''Not ready or expired'' 409
            | Some info \<Rightarrow>
                if i_status info \<noteq> Done then JsonError ''Not ready or expired'' 409
                else if i_ip info \<noteq> ip then JsonError ''Forbidden'' 403
                else SendFile (i_file info)))"

text \<open>\<^verbatim>\<open>download()\<close> of \<^verbatim>\<open>src/app-https-requires-certbot.py\<close>.\<close>

definition download_https :: "string option \<Rightarrow> string \<Rightarrow> state \<Rightarrow> response" where
  "download_https tok ip s =
     (case tok of
        None \<Rightarrow> Abort 400
      | Some token \<Rightarrow>
          if token = [] then Abort 400
          else
            (case DOWNLOADS s token of
              None \<Rightarrow> Abort 409
            | Some info \<Rightarrow>
                if i_status info \<noteq> Done then Abort 409
                else if i_ip info \<noteq> ip then Abort 403
                else SendFile (i_file info)))"

section \<open>Observations\<close>

text \<open>
  The registry states that a run of the worker passes through: the state it starts in,
  the state after each progress hook, and the state after its final mutation. Only the
  worker writes the record of its token while the record is live, so these are the
  values of the record that any reader can see, in order.
\<close>

fun hook_trace :: "(rat \<Rightarrow> rat) \<Rightarrow> string \<Rightarrow> event list \<Rightarrow> state \<Rightarrow> state list" where
  "hook_trace fl token [] s = [s]"
| "hook_trace fl token (d # ds) s = s # hook_trace fl token ds (progress_hook fl token d s)"

definition worker_trace ::
  "(rat \<Rightarrow> rat) \<Rightarrow> string \<Rightarrow> string \<Rightarrow> event list \<Rightarrow> engine_result \<Rightarrow> state \<Rightarrow> state list" where
  "worker_trace fl token fmt events outcome s =
     hook_trace fl token events s @
     (case download_worker fl token fmt events outcome s of Inl e \<Rightarrow> [] | Inr s' \<Rightarrow> [s'])"

text \<open>The status of the token's record in each state of a trace where it has one.\<close>

fun observed :: "string \<Rightarrow> state list \<Rightarrow> status list" where
  "observed token [] = []"
| "observed token (s # ss) =
     (case DOWNLOADS s token of
        None \<Rightarrow> observed token ss
      | Some i \<Rightarrow> i_status i # observed token ss)"

text \<open>
  The order of the specification: queued, downloading, processing, done, with error as a
  final state.
\<close>

fun status_rank :: "status \<Rightarrow> nat" where
  "status_rank Queued = 0"
| "status_rank Downloading = 1"
| "status_rank Processing = 2"
| "status_rank Done = 3"
| "status_rank Error = 4"

text \<open>
  An engine run that reports one stream: no ``downloading'' event comes after a
  ``finished'' event.
\<close>

fun phase_ordered :: "event list \<Rightarrow> bool" where
  "phase_ordered [] = True"
| "phase_ordered (d # ds) =
     ((d_status d = ''finished'' \<longrightarrow> (\<forall>e \<in> set ds. d_status e \<noteq> ''downloading''))
      \<and> phase_ordered ds)"

section \<open>The service over time\<close>

text \<open>
  Which of the two files runs: \<^verbatim>\<open>src/app.py\<close> or
  \<^verbatim>\<open>src/app-https-requires-certbot.py\<close>.
\<close>

datatype variant = App | Https

definition watch_of ::
  "variant \<Rightarrow> string \<Rightarrow> string \<Rightarrow> rat \<Rightarrow> watch_request \<Rightarrow> state \<Rightarrow> response \<times> state" where
  "watch_of v = (case v of App \<Rightarrow> watch | Https \<Rightarrow> watch_https)"

definition worker_of ::
  "variant \<Rightarrow> (rat \<Rightarrow> rat) \<Rightarrow> string \<Rightarrow> string \<Rightarrow> event list \<Rightarrow> engine_result \<Rightarrow> state
     \<Rightarrow> exn + state" where
  "worker_of v = (case v of App \<Rightarrow> download_worker | Https \<Rightarrow> download_worker_https)"

text \<open>
  The running service: the global state, the files in the download directory, the clock
  in seconds, and for each sleeping timer thread (in the order of \<open>timers\<close>) the time at
  which its \<^verbatim>\<open>time.sleep(delay)\<close> ends.
\<close>

record service =
  sv_state :: state
  sv_disk :: "string set"
  sv_clock :: nat
  sv_wake :: "nat list"

definition service0 :: service where
  "service0 = \<lparr>sv_state = state0, sv_disk = {}, sv_clock = 0, sv_wake = []\<rparr>"

text \<open>
  What can happen to the service: a request to \<^verbatim>\<open>/watch\<close> arrives (with the date and
  the \<^verbatim>\<open>uuid4\<close> it would draw); the engine of the \<open>k\<close>-th job handed to the executor
  and not yet ended calls the progress hook; that engine returns or raises and the worker
  ends; the \<open>k\<close>-th sleeping timer thread wakes up. \<^verbatim>\<open>/progress\<close> and
  \<^verbatim>\<open>/download\<close> only read.
\<close>

datatype action =
    Submit string string watch_request
  | Callback nat event
  | Finish nat engine_result
  | Wake nat

fun delay_of :: "timer \<Rightarrow> nat" where
  "delay_of (TokenExpire token delay) = delay"
| "delay_of (FileDelete path delay) = delay"

definition delete_nth :: "nat \<Rightarrow> 'a list \<Rightarrow> 'a list" where
  "delete_nth k xs = take k xs @ drop (Suc k) xs"

definition do_submit :: "variant \<Rightarrow> nat \<Rightarrow> string \<Rightarrow> string \<Rightarrow> watch_request \<Rightarrow> service \<Rightarrow> service" where
  "do_submit v t today uuid r sv =
     sv\<lparr>sv_state := snd (watch_of v today uuid (of_nat t) r (sv_state sv))\<rparr>"

definition do_callback :: "(rat \<Rightarrow> rat) \<Rightarrow> nat \<Rightarrow> event \<Rightarrow> service \<Rightarrow> service" where
  "do_callback fl k d sv =
     (let s = sv_state sv
      in if k < length (submitted s)
         then sv\<lparr>sv_state := progress_hook fl (j_token (submitted s ! k)) d s\<rparr>
         else sv)"

text \<open>
  The end of a job at time \<open>t\<close>. An engine that returns has written the output file.
  Every timer that the worker arms starts its sleep at \<open>t\<close>.
\<close>

definition do_finish ::
  "variant \<Rightarrow> (rat \<Rightarrow> rat) \<Rightarrow> nat \<Rightarrow> nat \<Rightarrow> engine_result \<Rightarrow> service \<Rightarrow> service" where
  "do_finish v fl t k outcome sv =
     (let s = sv_state sv
      in if k < length (submitted s) then
           let j = submitted s ! k;
               disk = (case outcome of
                         Returned \<Rightarrow> insert (output_path (j_token j) (j_fmt j)) (sv_disk sv)
                       | Raised msg \<Rightarrow> sv_disk sv)
           in case worker_of v fl (j_token j) (j_fmt j) [] outcome s of
                Inl e \<Rightarrow>
                  sv\<lparr>sv_state := s\<lparr>submitted := delete_nth k (submitted s)\<rparr>, sv_disk := disk\<rparr>
              | Inr s' \<Rightarrow>
                  sv\<lparr>sv_state := s'\<lparr>submitted := delete_nth k (submitted s')\<rparr>,
                     sv_disk := disk,
                     sv_wake := sv_wake sv @
                       map (\<lambda>tm. t + delay_of tm) (drop (length (timers s)) (timers s'))\<rparr>
         else sv)"

text \<open>
  A timer thread wakes up no earlier than its sleep ends: a token timer pops the token,
  a file timer removes the file if it exists.
\<close>

definition do_wake :: "nat \<Rightarrow> nat \<Rightarrow> service \<Rightarrow> service" where
  "do_wake t k sv =
     (let s = sv_state sv
      in if k < length (timers s) \<and> k < length (sv_wake sv) \<and> sv_wake sv ! k \<le> t then
           sv\<lparr>sv_state := (fire (timers s ! k) s)\<lparr>timers := delete_nth k (timers s)\<rparr>,
              sv_disk := (case timers s ! k of
                            TokenExpire token delay \<Rightarrow> sv_disk sv
                          | FileDelete path delay \<Rightarrow> sv_disk sv - {path}),
              sv_wake := delete_nth k (sv_wake sv)\<rparr>
         else sv)"

text \<open>One event at time \<open>t\<close>; the clock does not go back.\<close>

definition step :: "variant \<Rightarrow> (rat \<Rightarrow> rat) \<Rightarrow> nat \<times> action \<Rightarrow> service \<Rightarrow> service" where
  "step v fl ta sv =
     (let t = fst ta
      in if t < sv_clock sv then sv
         else (case snd ta of
                 Submit today uuid r \<Rightarrow> do_submit v t today uuid r sv
               | Callback k d \<Rightarrow> do_callback fl k d sv
               | Finish k outcome \<Rightarrow> do_finish v fl t k outcome sv
               | Wake k \<Rightarrow> do_wake t k sv)\<lparr>sv_clock := t\<rparr>)"

fun run :: "variant \<Rightarrow> (rat \<Rightarrow> rat) \<Rightarrow> (nat \<times> action) list \<Rightarrow> service \<Rightarrow> service" where
  "run v fl [] sv = sv"
| "run v fl (ta # tas) sv = run v fl tas (step v fl ta sv)"

text \<open>
  The tokens that something still refers to: those of the jobs that have not ended and
  those that a sleeping token timer will pop.
\<close>

fun expire_tokens :: "timer list \<Rightarrow> string list" where
  "expire_tokens [] = []"
| "expire_tokens (TokenExpire token delay # ts) = token # expire_tokens ts"
| "expire_tokens (FileDelete path delay # ts) = expire_tokens ts"

definition refs :: "state \<Rightarrow> string list" where
  "refs s = map j_token (submitted s) @ expire_tokens (timers s)"

definition refs_live :: "state \<Rightarrow> bool" where
  "refs_live s = (distinct (refs s) \<and> list_all (\<lambda>tok. DOWNLOADS s tok \<noteq> None) (refs s))"

section \<open>A scenario\<close>

text \<open>
  Scenario of the specification: on a fresh server the client at \<open>10.0.0.1\<close> submits
  subject \<open>abc123\<close>, container \<open>mp4\<close>, with its own token \<open>T\<close>;
  \<open>alice_queued\<close> is the state that \<^verbatim>\<open>watch\<close> leaves behind.
\<close>

definition alice_request :: watch_request where
  "alice_request =
     \<lparr>q_v = Some ''abc123'', q_not_json = False, q_res = None, q_audio = None,
      q_format = Some ''mp4'', q_token = Some ''T'', q_remote_addr = ''10.0.0.1''\<rparr>"

definition alice_queued :: state where
  "alice_queued =
     snd (watch ''2026-11-03'' ''0123456789abcdef0123456789abcdef'' 0 alice_request state0)"

text \<open>
  Two progress events of the engine: a third of three bytes downloaded, the total only
  estimated; and the end of the download.
\<close>

definition third_event :: event where
  "third_event =
     \<lparr>d_status = ''downloading'', d_total_bytes = None, d_total_bytes_estimate = Some 3,
      d_downloaded_bytes = Some 1, d_speed = Some 1000, d_eta = Some 2\<rparr>"

definition finished_event :: event where
  "finished_event =
     \<lparr>d_status = ''finished'', d_total_bytes = Some 3, d_total_bytes_estimate = None,
      d_downloaded_bytes = Some 3, d_speed = None, d_eta = None\<rparr>"

text \<open>
  The percentage in the words of the specification, \<open>round(100 * downloaded / total, 2)\<close>,
  in exact arithmetic.
\<close>

definition spec_percent :: "rat \<Rightarrow> rat \<Rightarrow> rat" where
  "spec_percent downloaded tot = of_int (round_half_even (100 * downloaded / tot * 100)) / 100"

text \<open>
  Token re-use in \<^verbatim>\<open>src/app.py\<close>: the job of the scenario is done at 10 s, its token
  expires at 310 s, the client submits the same token again at 311 s, that job is done at
  320 s, and at 370 s the file timer of the first job wakes up.
\<close>

definition reuse_run :: "(nat \<times> action) list" where
  "reuse_run =
     [(0, Submit ''2026-11-03'' ''0123456789abcdef0123456789abcdef'' alice_request),
      (10, Finish 0 Returned),
      (310, Wake 0),
      (311, Submit ''2026-11-03'' ''0123456789abcdef0123456789abcdef'' alice_request),
      (320, Finish 0 Returned),
      (370, Wake 0)]"

text \<open>The same in the HTTPS variant, with its delays of 5 s and 10 s.\<close>

definition reuse_run_https :: "(nat \<times> action) list" where
  "reuse_run_https =
     [(0, Submit ''2026-11-03'' ''0123456789abcdef0123456789abcdef'' alice_request),
      (10, Finish 0 Returned),
      (15, Wake 1),
      (16, Submit ''2026-11-03'' ''0123456789abcdef0123456789abcdef'' alice_request),
      (18, Finish 0 Returned),
      (20, Wake 0)]"

text \<open>A progress event at 23 of 160 bytes.\<close>

definition event_23_of_160 :: event where
  "event_23_of_160 =
     \<lparr>d_status = ''downloading'', d_total_bytes = Some 160, d_total_bytes_estimate = None,
      d_downloaded_bytes = Some 23, d_speed = None, d_eta = None\<rparr>"

text \<open>
  The percentage in the words of the specification, \<open>round(100 * downloaded / total, 2)\<close>,
  as the interpreter evaluates it in doubles.
\<close>

definition claimed_percent :: "rat \<Rightarrow> rat \<Rightarrow> rat" where
  "claimed_percent downloaded tot = py_round2 double (double (double (100 * downloaded) / tot))"

section \<open>The rate limiter\<close>

lemma remaining_other:
  "i \<noteq> ip \<Longrightarrow> remaining today ip (snd (check_ip_limit today i s)) = remaining today ip s"
  by (simp add: check_ip_limit_def remaining_def split: option.splits)

lemma admits_iff_remaining: "fst (check_ip_limit today ip s) = (0 < remaining today ip s)"
  by (auto simp add: check_ip_limit_def remaining_def MAX_DOWNLOADS_PER_DAY_def
      split: option.splits)

lemma remaining_same:
  "remaining today ip (snd (check_ip_limit today ip s)) = remaining today ip s - 1"
proof (cases "IP_LIMITS s ip")
  case None
  then show ?thesis
    by (simp add: check_ip_limit_def remaining_def MAX_DOWNLOADS_PER_DAY_def)
next
  case (Some e)
  then show ?thesis
    by (auto simp add: check_ip_limit_def remaining_def MAX_DOWNLOADS_PER_DAY_def)
qed

lemma remaining_first_today:
  "first_today today ip s \<Longrightarrow> remaining today ip s = nat MAX_DOWNLOADS_PER_DAY"
  by (simp add: first_today_def remaining_def split: option.splits)

lemma admitted_Cons:
  "admitted ip (i # ips) (ok # oks) = (if i = ip \<and> ok then 1 else 0) + admitted ip ips oks"
  by (simp add: admitted_def)

lemma admitted_remaining:
  "admitted ip ips (check_ip_limits today ips s) = min (count_list ips ip) (remaining today ip s)"
proof (induction ips arbitrary: s)
  case Nil
  then show ?case by (simp add: admitted_def)
next
  case (Cons i ips)
  show ?case
  proof (cases "i = ip")
    case True
    then show ?thesis
      using Cons.IH [of "snd (check_ip_limit today ip s)"]
      by (auto simp add: admitted_Cons admits_iff_remaining remaining_same)
  next
    case False
    then show ?thesis
      using Cons.IH [of "snd (check_ip_limit today i s)"]
      by (simp add: admitted_Cons remaining_other)
  qed
qed

lemma length_check_ip_limits: "length (check_ip_limits today ips s) = length ips"
  by (induction ips arbitrary: s) simp_all

lemma decision_remaining:
  "k < length ips \<Longrightarrow>
   check_ip_limits today ips s ! k =
     (count_list (take k ips) (ips ! k) < remaining today (ips ! k) s)"
proof (induction ips arbitrary: s k)
  case Nil
  then show ?case by simp
next
  case (Cons i ips)
  show ?case
  proof (cases k)
    case 0
    then show ?thesis by (simp add: admits_iff_remaining)
  next
    case (Suc j)
    with Cons.prems have j: "j < length ips" by simp
    show ?thesis
    proof (cases "i = ips ! j")
      case True
      then show ?thesis
        using Cons.IH [OF j, of "snd (check_ip_limit today i s)"] Suc
        by (auto simp add: remaining_same)
    next
      case False
      then show ?thesis
        using Cons.IH [OF j, of "snd (check_ip_limit today i s)"] Suc
        by (simp add: remaining_other)
    qed
  qed
qed

text \<open>
  Claim C5. \<^verbatim>\<open>check_ip_limit\<close> admits and resets the entry to count 1 when the client has
  no entry or an entry of another day; rejects and leaves the state as it is when the
  count of the current day has reached \<open>MAX_DOWNLOADS_PER_DAY\<close>; otherwise increments the
  count and admits. Hence, in any run of calls on one day that starts before the client's
  first call of that day, exactly the first \<open>MAX_DOWNLOADS_PER_DAY\<close> calls of the client
  are admitted, whatever other clients do in between: the call number \<open>k\<close> of the run is
  admitted if and only if the client made fewer than \<open>MAX_DOWNLOADS_PER_DAY\<close> calls
  before it.
\<close>

theorem check_ip_limit_quota:
  "(first_today today ip s \<longrightarrow>
      check_ip_limit today ip s =
        (True, s\<lparr>IP_LIMITS := (IP_LIMITS s)(ip \<mapsto> \<lparr>e_date = today, e_count = 1\<rparr>)\<rparr>)) \<and>
   (IP_LIMITS s ip = Some e \<and> e_date e = today \<and> MAX_DOWNLOADS_PER_DAY \<le> e_count e \<longrightarrow>
      check_ip_limit today ip s = (False, s)) \<and>
   (IP_LIMITS s ip = Some e \<and> e_date e = today \<and> e_count e < MAX_DOWNLOADS_PER_DAY \<longrightarrow>
      check_ip_limit today ip s =
        (True, s\<lparr>IP_LIMITS := (IP_LIMITS s)(ip \<mapsto> e\<lparr>e_count := e_count e + 1\<rparr>)\<rparr>)) \<and>
   (first_today today ip s \<longrightarrow>
      admitted ip ips (check_ip_limits today ips s) =
        min (count_list ips ip) (nat MAX_DOWNLOADS_PER_DAY)) \<and>
   (first_today today ip s \<and> k < length ips \<and> ips ! k = ip \<longrightarrow>
      check_ip_limits today ips s ! k =
        (count_list (take k ips) ip < nat MAX_DOWNLOADS_PER_DAY))"
proof (intro conjI impI)
  assume "first_today today ip s"
  then show "check_ip_limit today ip s =
      (True, s\<lparr>IP_LIMITS := (IP_LIMITS s)(ip \<mapsto> \<lparr>e_date = today, e_count = 1\<rparr>)\<rparr>)"
    by (auto simp add: first_today_def check_ip_limit_def split: option.splits)
next
  assume "IP_LIMITS s ip = Some e \<and> e_date e = today \<and> MAX_DOWNLOADS_PER_DAY \<le> e_count e"
  then show "check_ip_limit today ip s = (False, s)"
    by (simp add: check_ip_limit_def)
next
  assume "IP_LIMITS s ip = Some e \<and> e_date e = today \<and> e_count e < MAX_DOWNLOADS_PER_DAY"
  then show "check_ip_limit today ip s =
      (True, s\<lparr>IP_LIMITS := (IP_LIMITS s)(ip \<mapsto> e\<lparr>e_count := e_count e + 1\<rparr>)\<rparr>)"
    by (simp add: check_ip_limit_def)
next
  assume "first_today today ip s"
  then show "admitted ip ips (check_ip_limits today ips s) =
      min (count_list ips ip) (nat MAX_DOWNLOADS_PER_DAY)"
    by (simp add: admitted_remaining remaining_first_today)
next
  assume "first_today today ip s \<and> k < length ips \<and> ips ! k = ip"
  then show "check_ip_limits today ips s ! k =
      (count_list (take k ips) ip < nat MAX_DOWNLOADS_PER_DAY)"
    using decision_remaining [of k ips today s] by (auto simp add: remaining_first_today)
qed

theorem check_ip_limit_quota_witness:
  "first_today ''2026-11-03'' ''10.0.0.1'' state0 \<and>
   admitted ''10.0.0.1'' (replicate 11 ''10.0.0.1'')
     (check_ip_limits ''2026-11-03'' (replicate 11 ''10.0.0.1'') state0) = 10 \<and>
   check_ip_limits ''2026-11-03'' (replicate 11 ''10.0.0.1'') state0 ! 10 = False \<and>
   check_ip_limit ''2026-11-03'' ''10.0.0.1''
     (state0\<lparr>IP_LIMITS := [''10.0.0.1'' \<mapsto> \<lparr>e_date = ''2026-11-03'', e_count = 10\<rparr>]\<rparr>) =
     (False, state0\<lparr>IP_LIMITS := [''10.0.0.1'' \<mapsto> \<lparr>e_date = ''2026-11-03'', e_count = 10\<rparr>]\<rparr>) \<and>
   check_ip_limit ''2026-11-03'' ''10.0.0.1''
     (state0\<lparr>IP_LIMITS := [''10.0.0.1'' \<mapsto> \<lparr>e_date = ''2026-11-03'', e_count = 9\<rparr>]\<rparr>) =
     (True, state0\<lparr>IP_LIMITS := [''10.0.0.1'' \<mapsto> \<lparr>e_date = ''2026-11-03'', e_count = 10\<rparr>]\<rparr>)"
proof -
  let ?ip = "''10.0.0.1''" and ?day = "''2026-11-03''"
  let ?ips = "replicate 11 ?ip"
  let ?full = "state0\<lparr>IP_LIMITS := [?ip \<mapsto> \<lparr>e_date = ?day, e_count = 10\<rparr>]\<rparr>"
  let ?nine = "state0\<lparr>IP_LIMITS := [?ip \<mapsto> \<lparr>e_date = ?day, e_count = 9\<rparr>]\<rparr>"
  have f: "first_today ?day ?ip state0"
    by (simp add: first_today_def state0_def)
  have k: "10 < length ?ips" and n: "?ips ! 10 = ?ip"
    by simp_all
  have c: "count_list ?ips ?ip = 11" "count_list (take 10 ?ips) ?ip = 10"
    by code_simp+
  have a: "admitted ?ip ?ips (check_ip_limits ?day ?ips state0) = 10"
    using check_ip_limit_quota [of ?day ?ip state0 _ ?ips] f c
    by (simp add: MAX_DOWNLOADS_PER_DAY_def)
  have d: "check_ip_limits ?day ?ips state0 ! 10 = False"
    using check_ip_limit_quota [of ?day ?ip state0 _ ?ips 10] f k n c
    by (simp add: MAX_DOWNLOADS_PER_DAY_def)
  have b: "check_ip_limit ?day ?ip ?full = (False, ?full)"
    using check_ip_limit_quota [of ?day ?ip ?full "\<lparr>e_date = ?day, e_count = 10\<rparr>"]
    by (simp add: MAX_DOWNLOADS_PER_DAY_def)
  have i: "check_ip_limit ?day ?ip ?nine = (True, ?full)"
    using check_ip_limit_quota [of ?day ?ip ?nine "\<lparr>e_date = ?day, e_count = 9\<rparr>"]
    by (simp add: MAX_DOWNLOADS_PER_DAY_def)
  from f a d b i show ?thesis by blast
qed

section \<open>The scenario, evaluated\<close>

lemma lower_mp4: "lower ''mp4'' = ''mp4''"
  by code_simp

lemma alice_queued_eq:
  "alice_queued =
     \<lparr>DOWNLOADS = [''T'' \<mapsto> new_info ''T'' ''10.0.0.1'' ''abc123'' ''mp4'' 0],
      IP_LIMITS = [''10.0.0.1'' \<mapsto> \<lparr>e_date = ''2026-11-03'', e_count = 1\<rparr>],
      timers = [],
      submitted = [\<lparr>j_token = ''T'', j_video_id = ''abc123'', j_res = None,
                    j_audio = ''192'', j_fmt = ''mp4'', j_ip = ''10.0.0.1''\<rparr>]\<rparr>"
  by (simp add: alice_queued_def alice_request_def watch_def check_ip_limit_def state0_def
      requested_format_def lower_mp4 or_uuid_def DEFAULT_AUDIO_BITRATE_def Let_def)

section \<open>Ownership\<close>

text \<open>
  Claim C1, as amended. For a live record and a requester who is not its owner,
  \<^verbatim>\<open>progress\<close> answers Forbidden whatever the status of the job. \<^verbatim>\<open>download\<close> (in both
  files) tests the status before the owner: it answers Forbidden when the job is done
  and Conflict when it is not.
\<close>

theorem forbidden_for_other_identity:
  assumes "DOWNLOADS s token = Some info" and "token \<noteq> []" and "ip \<noteq> i_ip info"
  shows "http_code (progress fl now (Some token) ip s) = Forbidden \<and>
         http_code (download (Some token) ip s) =
           (if i_status info = Done then Forbidden else Conflict) \<and>
         http_code (download_https (Some token) ip s) =
           (if i_status info = Done then Forbidden else Conflict)"
  using assms by (auto simp add: progress_def download_def download_https_def Forbidden_def Conflict_def)

text \<open>
  The claim as stated fails for \<^verbatim>\<open>download\<close>: the job of the scenario is queued, and a
  requester at another address gets 409, not 403.
\<close>

theorem download_other_identity_counterexample:
  "DOWNLOADS alice_queued ''T'' = Some (new_info ''T'' ''10.0.0.1'' ''abc123'' ''mp4'' 0) \<and>
   i_ip (new_info ''T'' ''10.0.0.1'' ''abc123'' ''mp4'' 0) \<noteq> ''10.0.0.2'' \<and>
   i_status (new_info ''T'' ''10.0.0.1'' ''abc123'' ''mp4'' 0) = Queued \<and>
   download (Some ''T'') ''10.0.0.2'' alice_queued = JsonError ''Not ready or expired'' 409 \<and>
   download_https (Some ''T'') ''10.0.0.2'' alice_queued = Abort 409 \<and>
   http_code (download (Some ''T'') ''10.0.0.2'' alice_queued) \<noteq> Forbidden"
  by (simp add: alice_queued_eq download_def download_https_def new_info_def Forbidden_def)

theorem forbidden_for_other_identity_witness:
  "http_code (progress (\<lambda>x. x) 5 (Some ''T'') ''10.0.0.2'' alice_queued) = Forbidden \<and>
   http_code (download (Some ''T'') ''10.0.0.2'' alice_queued) = Conflict \<and>
   http_code (download_https (Some ''T'') ''10.0.0.2'' alice_queued) = Conflict"
proof -
  have "DOWNLOADS alice_queued ''T'' = Some (new_info ''T'' ''10.0.0.1'' ''abc123'' ''mp4'' 0)"
    by (simp add: alice_queued_eq)
  moreover have "''T'' \<noteq> []" and "''10.0.0.2'' \<noteq> i_ip (new_info ''T'' ''10.0.0.1'' ''abc123'' ''mp4'' 0)"
    by (simp_all add: new_info_def)
  ultimately show ?thesis
    using forbidden_for_other_identity
      [of alice_queued "''T''" "new_info ''T'' ''10.0.0.1'' ''abc123'' ''mp4'' 0" "''10.0.0.2''" "\<lambda>x. x" 5]
    by (simp add: new_info_def)
qed

section \<open>Retention\<close>

text \<open>
  Claim C8. In both files the file-deletion delay is at least the token-expiry delay, and
  yet a file can be gone while its token is valid. The timers are keyed by token and by
  path and are never cancelled: when a token is used again after it has expired, the file
  timer of the earlier job is still asleep, wakes up at its own time and removes the file
  under the same path, while the later job's record is done, points to that file and has
  its own expiry still ahead.
\<close>

theorem stale_timer_deletes_reused_file:
  "TOKEN_EXPIRE_SECONDS \<le> FILE_DELETE_SECONDS \<and>
   TOKEN_EXPIRE_SECONDS_https \<le> FILE_DELETE_SECONDS_https \<and>
   ''downloads/T.mp4'' \<in> sv_disk (run App double (butlast reuse_run) service0) \<and>
   sv_clock (run App double reuse_run service0) = 370 \<and>
   ''downloads/T.mp4'' \<notin> sv_disk (run App double reuse_run service0) \<and>
   download (Some ''T'') ''10.0.0.1'' (sv_state (run App double reuse_run service0)) =
     SendFile (Some ''downloads/T.mp4'') \<and>
   timers (sv_state (run App double reuse_run service0)) =
     [TokenExpire ''T'' 300, FileDelete ''downloads/T.mp4'' 360] \<and>
   sv_wake (run App double reuse_run service0) = [620, 680] \<and>
   sv_clock (run Https double reuse_run_https service0) = 20 \<and>
   ''downloads/T.mp4'' \<notin> sv_disk (run Https double reuse_run_https service0) \<and>
   download_https (Some ''T'') ''10.0.0.1'' (sv_state (run Https double reuse_run_https service0)) =
     SendFile (Some ''downloads/T.mp4'') \<and>
   timers (sv_state (run Https double reuse_run_https service0)) =
     [FileDelete ''downloads/T.mp4'' 10, TokenExpire ''T'' 5] \<and>
   sv_wake (run Https double reuse_run_https service0) = [28, 23]"
proof (intro conjI)
  show "TOKEN_EXPIRE_SECONDS \<le> FILE_DELETE_SECONDS"
    by (simp add: TOKEN_EXPIRE_SECONDS_def FILE_DELETE_SECONDS_def)
  show "TOKEN_EXPIRE_SECONDS_https \<le> FILE_DELETE_SECONDS_https"
    by (simp add: TOKEN_EXPIRE_SECONDS_https_def FILE_DELETE_SECONDS_https_def)
  show "''downloads/T.mp4'' \<in> sv_disk (run App double (butlast reuse_run) service0)"
    by code_simp
  show "sv_clock (run App double reuse_run service0) = 370"
    by code_simp
  show "''downloads/T.mp4'' \<notin> sv_disk (run App double reuse_run service0)"
    by code_simp
  show "download (Some ''T'') ''10.0.0.1'' (sv_state (run App double reuse_run service0)) =
     SendFile (Some ''downloads/T.mp4'')"
    by code_simp
  show "timers (sv_state (run App double reuse_run service0)) =
     [TokenExpire ''T'' 300, FileDelete ''downloads/T.mp4'' 360]"
    by code_simp
  show "sv_wake (run App double reuse_run service0) = [620, 680]"
    by code_simp
  show "sv_clock (run Https double reuse_run_https service0) = 20"
    by code_simp
  show "''downloads/T.mp4'' \<notin> sv_disk (run Https double reuse_run_https service0)"
    by code_simp
  show "download_https (Some ''T'') ''10.0.0.1''
      (sv_state (run Https double reuse_run_https service0)) = SendFile (Some ''downloads/T.mp4'')"
    by code_simp
  show "timers (sv_state (run Https double reuse_run_https service0)) =
     [FileDelete ''downloads/T.mp4'' 10, TokenExpire ''T'' 5]"
    by code_simp
  show "sv_wake (run Https double reuse_run_https service0) = [28, 23]"
    by code_simp
qed

section \<open>Progress hooks\<close>

lemma progress_hook_absent: "DOWNLOADS s token = None \<Longrightarrow> progress_hook fl token d s = s"
  by (simp add: progress_hook_def)

lemma progress_hook_timers: "timers (progress_hook fl token d s) = timers s"
  by (simp add: progress_hook_def Let_def split: option.splits)

lemma progress_hook_present:
  "DOWNLOADS s token \<noteq> None \<Longrightarrow> DOWNLOADS (progress_hook fl token d s) token \<noteq> None"
  by (auto simp add: progress_hook_def Let_def split: option.splits)

lemma run_hooks_absent: "DOWNLOADS s token = None \<Longrightarrow> run_hooks fl token events s = s"
  by (induction events arbitrary: s) (simp_all add: progress_hook_absent)

lemma run_hooks_timers: "timers (run_hooks fl token events s) = timers s"
  by (induction events arbitrary: s) (simp_all add: progress_hook_timers)

lemma run_hooks_present:
  "DOWNLOADS s token \<noteq> None \<Longrightarrow> DOWNLOADS (run_hooks fl token events s) token \<noteq> None"
proof (induction events arbitrary: s)
  case Nil
  then show ?case by simp
next
  case (Cons d ds)
  from Cons.prems have "DOWNLOADS (progress_hook fl token d s) token \<noteq> None"
    by (rule progress_hook_present)
  from Cons.IH [OF this] show ?case by simp
qed

section \<open>The end of a job\<close>

lemma worker_except_present:
  "DOWNLOADS s token = Some i \<Longrightarrow>
   worker_except token msg s =
     Inr (s\<lparr>DOWNLOADS := (DOWNLOADS s)(token \<mapsto> i\<lparr>i_status := Error, i_error := Some msg\<rparr>)\<rparr>)"
  by (simp add: worker_except_def bind_exn_def setitem_def)

lemma worker_except_https_present:
  "DOWNLOADS s token = Some i \<Longrightarrow>
   worker_except_https token msg s =
     Inr (s\<lparr>DOWNLOADS := (DOWNLOADS s)(token \<mapsto> i\<lparr>i_status := Error, i_error := Some msg\<rparr>)\<rparr>)"
  by (simp add: worker_except_https_def bind_exn_def setitem_def)

text \<open>
  Claim C3, as amended. When the engine raises, the worker (in both files) sets the
  record's status to error and its error detail to the message, and arms no timer at all:
  neither file deletion nor registry removal. The record stays in the registry.
\<close>

theorem engine_failure_arms_nothing:
  assumes "DOWNLOADS s token = Some info"
  shows "(\<exists>s' i. download_worker fl token fmt events (Raised msg) s = Inr s' \<and>
            DOWNLOADS s' token = Some i \<and> i_status i = Error \<and> i_error i = Some msg \<and>
            timers s' = timers s) \<and>
         (\<exists>s' i. download_worker_https fl token fmt events (Raised msg) s = Inr s' \<and>
            DOWNLOADS s' token = Some i \<and> i_status i = Error \<and> i_error i = Some msg \<and>
            timers s' = timers s)"
proof -
  let ?s1 = "run_hooks fl token events s"
  from assms have "DOWNLOADS ?s1 token \<noteq> None"
    by (simp add: run_hooks_present)
  then obtain j where j: "DOWNLOADS ?s1 token = Some j"
    by blast
  have t: "timers ?s1 = timers s"
    by (rule run_hooks_timers)
  show ?thesis
    by (simp add: download_worker_def download_worker_https_def
        worker_except_present [OF j] worker_except_https_present [OF j] t)
qed

text \<open>
  The claim as stated fails: after the engine has raised on the job of the scenario, the
  record is in error and no timer is armed, so nothing will remove the record.
\<close>

theorem engine_failure_counterexample:
  "\<not> isl (download_worker (\<lambda>x. x) ''T'' ''mp4'' [] (Raised ''boom'') alice_queued) \<and>
   map_option i_status
     (DOWNLOADS (projr (download_worker (\<lambda>x. x) ''T'' ''mp4'' [] (Raised ''boom'') alice_queued)) ''T'')
     = Some Error \<and>
   timers (projr (download_worker (\<lambda>x. x) ''T'' ''mp4'' [] (Raised ''boom'') alice_queued)) = [] \<and>
   timers (projr (download_worker_https (\<lambda>x. x) ''T'' ''mp4'' [] (Raised ''boom'') alice_queued)) = []"
  by (simp add: download_worker_def download_worker_https_def alice_queued_eq
      worker_except_def worker_except_https_def bind_exn_def setitem_def)

theorem engine_failure_arms_nothing_witness:
  "\<exists>s' i. download_worker (\<lambda>x. x) ''T'' ''mp4'' [] (Raised ''boom'') alice_queued = Inr s' \<and>
     DOWNLOADS s' ''T'' = Some i \<and> i_status i = Error \<and> i_error i = Some ''boom'' \<and>
     timers s' = []"
proof -
  have "DOWNLOADS alice_queued ''T'' = Some (new_info ''T'' ''10.0.0.1'' ''abc123'' ''mp4'' 0)"
    and "timers alice_queued = []"
    by (simp_all add: alice_queued_eq)
  then show ?thesis
    using engine_failure_arms_nothing
      [of alice_queued "''T''" _ "\<lambda>x. x" "''mp4''" "[]" "''boom''"]
    by simp
qed

section \<open>Purged tokens\<close>

text \<open>
  In \<^verbatim>\<open>src/app.py\<close> every mutation of the worker is guarded: on a token that is not in
  the registry the hook, the final mutation and the handler leave the registry as it is.
\<close>

lemma purged_token_noop:
  assumes "DOWNLOADS s token = None"
  shows "progress_hook fl token d s = s"
    and "worker_except token msg s = Inr s"
    and "\<exists>s'. worker_try token fmt s = Inr s' \<and> DOWNLOADS s' = DOWNLOADS s"
    and "\<exists>s'. download_worker fl token fmt events outcome s = Inr s' \<and> DOWNLOADS s' = DOWNLOADS s"
proof -
  show "progress_hook fl token d s = s"
    using assms by (rule progress_hook_absent)
  show e: "worker_except token msg s = Inr s" for msg
    using assms by (simp add: worker_except_def)
  show t: "\<exists>s'. worker_try token fmt s = Inr s' \<and> DOWNLOADS s' = DOWNLOADS s"
    using assms
    by (simp add: worker_try_def bind_exn_def schedule_delete_def schedule_token_expire_def)
  show "\<exists>s'. download_worker fl token fmt events outcome s = Inr s' \<and> DOWNLOADS s' = DOWNLOADS s"
    using t e
    by (cases outcome) (auto simp add: download_worker_def run_hooks_absent [OF assms])
qed

section \<open>Submission\<close>

lemma check_ip_limit_frame:
  "DOWNLOADS (snd (check_ip_limit today ip s)) = DOWNLOADS s"
  "timers (snd (check_ip_limit today ip s)) = timers s"
  "submitted (snd (check_ip_limit today ip s)) = submitted s"
  by (simp_all add: check_ip_limit_def split: option.splits)

lemma watch_missing:
  "\<not> truthy_str (q_v r) \<Longrightarrow>
   watch today uuid now r s = (reject (q_not_json r) ''Missing v'' 400, s)"
  by (simp add: watch_def truthy_str_def split: option.splits)

lemma watch_present:
  assumes "truthy_str (q_v r)"
  shows "watch today uuid now r s =
     (let s1 = snd (check_ip_limit today (q_remote_addr r) s);
          token = or_uuid (q_token r) uuid
      in if \<not> fst (check_ip_limit today (q_remote_addr r) s) then
           (reject (q_not_json r) ''Daily limit reached'' 429, s1)
         else if requested_format r \<noteq> ''mp4'' \<and> requested_format r \<noteq> ''webm'' then
           (reject (q_not_json r) ''Invalid format'' 400, s1)
         else if DOWNLOADS s token \<noteq> None then
           (reject (q_not_json r) ''Token in use'' 409, s1)
         else
           (if q_not_json r then WaitLoop token else JsonQueued token,
            s1\<lparr>DOWNLOADS := (DOWNLOADS s)(token \<mapsto>
                  new_info token (q_remote_addr r) (the (q_v r)) (requested_format r) now),
               submitted := submitted s @
                 [\<lparr>j_token = token, j_video_id = the (q_v r), j_res = q_res r,
                   j_audio = (case q_audio r of None \<Rightarrow> DEFAULT_AUDIO_BITRATE | Some a \<Rightarrow> a),
                   j_fmt = requested_format r, j_ip = q_remote_addr r\<rparr>]\<rparr>))"
proof -
  from assms obtain v where v: "q_v r = Some v" "v \<noteq> []"
    by (auto simp add: truthy_str_def split: option.splits)
  obtain ok s1 where c: "check_ip_limit today (q_remote_addr r) s = (ok, s1)"
    by (cases "check_ip_limit today (q_remote_addr r) s")
  have f: "DOWNLOADS s1 = DOWNLOADS s" "submitted s1 = submitted s"
    using check_ip_limit_frame [of today "q_remote_addr r" s] c by simp_all
  show ?thesis
    by (simp add: watch_def v c f Let_def)
qed

lemma http_code_reject: "http_code (reject b m c) = c"
  by (simp add: reject_def)

text \<open>
  Claim C6. \<^verbatim>\<open>watch\<close> answers BadRequest when the subject \<^verbatim>\<open>v\<close> is missing (or
  empty); RateLimited when the subject is there and the client's count of the day has
  reached the cap; BadRequest when the limiter admits and the lower-cased container
  format is neither \<open>mp4\<close> nor \<open>webm\<close>; Conflict when all of that passes and the
  caller's token is live. Otherwise it accepts: the response carries the token, the
  registry holds a record under it that is queued, at percent 0 and owned by the
  requester, and the token is the generated one when the caller supplied none.
\<close>

theorem watch_rejects_and_accepts:
  "(\<not> truthy_str (q_v r) \<longrightarrow>
      http_code (fst (watch today uuid now r s)) = BadRequest) \<and>
   (truthy_str (q_v r) \<and> IP_LIMITS s (q_remote_addr r) = Some e \<and> e_date e = today \<and>
    MAX_DOWNLOADS_PER_DAY \<le> e_count e \<longrightarrow>
      http_code (fst (watch today uuid now r s)) = RateLimited) \<and>
   (truthy_str (q_v r) \<and> fst (check_ip_limit today (q_remote_addr r) s) \<and>
    requested_format r \<noteq> ''mp4'' \<and> requested_format r \<noteq> ''webm'' \<longrightarrow>
      http_code (fst (watch today uuid now r s)) = BadRequest) \<and>
   (truthy_str (q_v r) \<and> fst (check_ip_limit today (q_remote_addr r) s) \<and>
    (requested_format r = ''mp4'' \<or> requested_format r = ''webm'') \<and>
    q_token r = Some t \<and> t \<noteq> [] \<and> DOWNLOADS s t \<noteq> None \<longrightarrow>
      http_code (fst (watch today uuid now r s)) = Conflict) \<and>
   (truthy_str (q_v r) \<and> fst (check_ip_limit today (q_remote_addr r) s) \<and>
    (requested_format r = ''mp4'' \<or> requested_format r = ''webm'') \<and>
    DOWNLOADS s (or_uuid (q_token r) uuid) = None \<longrightarrow>
      fst (watch today uuid now r s) =
        (if q_not_json r then WaitLoop (or_uuid (q_token r) uuid)
         else JsonQueued (or_uuid (q_token r) uuid)) \<and>
      (\<exists>i. DOWNLOADS (snd (watch today uuid now r s)) (or_uuid (q_token r) uuid) = Some i \<and>
           i_status i = Queued \<and> i_percent i = 0 \<and> i_ip i = q_remote_addr r) \<and>
      (q_token r = None \<longrightarrow> or_uuid (q_token r) uuid = uuid))"
proof (intro conjI impI)
  assume "\<not> truthy_str (q_v r)"
  then show "http_code (fst (watch today uuid now r s)) = BadRequest"
    by (simp add: watch_missing http_code_reject BadRequest_def)
next
  assume "truthy_str (q_v r) \<and> IP_LIMITS s (q_remote_addr r) = Some e \<and> e_date e = today \<and>
    MAX_DOWNLOADS_PER_DAY \<le> e_count e"
  then show "http_code (fst (watch today uuid now r s)) = RateLimited"
    by (simp add: watch_present check_ip_limit_def http_code_reject RateLimited_def)
next
  assume "truthy_str (q_v r) \<and> fst (check_ip_limit today (q_remote_addr r) s) \<and>
    requested_format r \<noteq> ''mp4'' \<and> requested_format r \<noteq> ''webm''"
  then show "http_code (fst (watch today uuid now r s)) = BadRequest"
    by (simp add: watch_present http_code_reject BadRequest_def)
next
  assume "truthy_str (q_v r) \<and> fst (check_ip_limit today (q_remote_addr r) s) \<and>
    (requested_format r = ''mp4'' \<or> requested_format r = ''webm'') \<and>
    q_token r = Some t \<and> t \<noteq> [] \<and> DOWNLOADS s t \<noteq> None"
  then show "http_code (fst (watch today uuid now r s)) = Conflict"
    by (auto simp add: watch_present or_uuid_def http_code_reject Conflict_def)
next
  assume a: "truthy_str (q_v r) \<and> fst (check_ip_limit today (q_remote_addr r) s) \<and>
    (requested_format r = ''mp4'' \<or> requested_format r = ''webm'') \<and>
    DOWNLOADS s (or_uuid (q_token r) uuid) = None"
  then show "fst (watch today uuid now r s) =
        (if q_not_json r then WaitLoop (or_uuid (q_token r) uuid)
         else JsonQueued (or_uuid (q_token r) uuid))"
    by (auto simp add: watch_present Let_def)
  from a show "\<exists>i. DOWNLOADS (snd (watch today uuid now r s)) (or_uuid (q_token r) uuid) = Some i \<and>
           i_status i = Queued \<and> i_percent i = 0 \<and> i_ip i = q_remote_addr r"
    by (auto simp add: watch_present Let_def new_info_def)
  assume "q_token r = None"
  then show "or_uuid (q_token r) uuid = uuid"
    by (simp add: or_uuid_def)
qed


lemma lower_avi: "lower ''avi'' = ''avi''"
  by code_simp

theorem watch_rejects_and_accepts_witness:
  "http_code (fst (watch ''2026-11-03'' ''0123456789abcdef0123456789abcdef'' 0
     (alice_request\<lparr>q_v := None\<rparr>) state0)) = BadRequest \<and>
   http_code (fst (watch ''2026-11-03'' ''0123456789abcdef0123456789abcdef'' 0 alice_request
     (state0\<lparr>IP_LIMITS := [''10.0.0.1'' \<mapsto> \<lparr>e_date = ''2026-11-03'', e_count = 10\<rparr>]\<rparr>)))
     = RateLimited \<and>
   http_code (fst (watch ''2026-11-03'' ''0123456789abcdef0123456789abcdef'' 0
     (alice_request\<lparr>q_format := Some ''avi''\<rparr>) state0)) = BadRequest \<and>
   http_code (fst (watch ''2026-11-03'' ''0123456789abcdef0123456789abcdef'' 0 alice_request
     alice_queued)) = Conflict \<and>
   fst (watch ''2026-11-03'' ''0123456789abcdef0123456789abcdef'' 0
     (alice_request\<lparr>q_token := None\<rparr>) state0) = JsonQueued ''0123456789abcdef0123456789abcdef''"
proof -
  let ?d = "''2026-11-03''" and ?u = "''0123456789abcdef0123456789abcdef''"
  let ?full = "state0\<lparr>IP_LIMITS := [''10.0.0.1'' \<mapsto> \<lparr>e_date = ?d, e_count = 10\<rparr>]\<rparr>"
  have 1: "http_code (fst (watch ?d ?u 0 (alice_request\<lparr>q_v := None\<rparr>) state0)) = BadRequest"
    using watch_rejects_and_accepts [of "alice_request\<lparr>q_v := None\<rparr>" ?d ?u 0 state0]
    by (simp add: truthy_str_def)
  have 2: "http_code (fst (watch ?d ?u 0 alice_request ?full)) = RateLimited"
    using watch_rejects_and_accepts
      [of alice_request ?d ?u 0 ?full "\<lparr>e_date = ?d, e_count = 10\<rparr>"]
    by (simp add: truthy_str_def alice_request_def MAX_DOWNLOADS_PER_DAY_def)
  have 3: "http_code (fst (watch ?d ?u 0 (alice_request\<lparr>q_format := Some ''avi''\<rparr>) state0))
      = BadRequest"
    using watch_rejects_and_accepts [of "alice_request\<lparr>q_format := Some ''avi''\<rparr>" ?d ?u 0 state0]
    by (simp add: truthy_str_def alice_request_def requested_format_def lower_avi
        check_ip_limit_def state0_def)
  have 4: "http_code (fst (watch ?d ?u 0 alice_request alice_queued)) = Conflict"
    using watch_rejects_and_accepts [of alice_request ?d ?u 0 alice_queued _ "''T''"]
    by (simp add: truthy_str_def alice_request_def requested_format_def lower_mp4
        check_ip_limit_def alice_queued_eq MAX_DOWNLOADS_PER_DAY_def)
  have 5: "fst (watch ?d ?u 0 (alice_request\<lparr>q_token := None\<rparr>) state0) = JsonQueued ?u"
    using watch_rejects_and_accepts [of "alice_request\<lparr>q_token := None\<rparr>" ?d ?u 0 state0]
    by (simp add: truthy_str_def alice_request_def requested_format_def lower_mp4
        check_ip_limit_def state0_def or_uuid_def)
  from 1 2 3 4 5 show ?thesis by blast
qed

section \<open>Rejected submissions and the quota\<close>

text \<open>
  Claim C9. A submission with a subject that the limiter admits and that is then rejected,
  for its container format or for a live token, leaves the registry and the executor
  queue as they were, while the client's entry has been reset to 1 or incremented: one
  unit of the day's quota is gone.
\<close>

theorem rejected_submission_consumes_quota:
  assumes "truthy_str (q_v r)"
    and "fst (check_ip_limit today (q_remote_addr r) s)"
    and "(requested_format r \<noteq> ''mp4'' \<and> requested_format r \<noteq> ''webm'') \<or>
         DOWNLOADS s (or_uuid (q_token r) uuid) \<noteq> None"
  shows "(http_code (fst (watch today uuid now r s)) = BadRequest \<or>
          http_code (fst (watch today uuid now r s)) = Conflict) \<and>
         DOWNLOADS (snd (watch today uuid now r s)) = DOWNLOADS s \<and>
         submitted (snd (watch today uuid now r s)) = submitted s \<and>
         snd (watch today uuid now r s) = snd (check_ip_limit today (q_remote_addr r) s) \<and>
         IP_LIMITS (snd (watch today uuid now r s)) (q_remote_addr r) =
           Some \<lparr>e_date = today,
                 e_count = (case IP_LIMITS s (q_remote_addr r) of
                              None \<Rightarrow> 1
                            | Some e \<Rightarrow> if e_date e \<noteq> today then 1 else e_count e + 1)\<rparr> \<and>
         IP_LIMITS (snd (watch today uuid now r s)) (q_remote_addr r) \<noteq>
           IP_LIMITS s (q_remote_addr r) \<and>
         remaining today (q_remote_addr r) (snd (watch today uuid now r s)) + 1 =
           remaining today (q_remote_addr r) s"
proof -
  let ?ip = "q_remote_addr r"
  let ?s1 = "snd (check_ip_limit today ?ip s)"
  have w: "snd (watch today uuid now r s) = ?s1"
    using assms by (auto simp add: watch_present Let_def)
  have c: "http_code (fst (watch today uuid now r s)) = BadRequest \<or>
           http_code (fst (watch today uuid now r s)) = Conflict"
    using assms by (auto simp add: watch_present Let_def http_code_reject BadRequest_def Conflict_def)
  have e: "IP_LIMITS ?s1 ?ip =
      Some \<lparr>e_date = today,
            e_count = (case IP_LIMITS s ?ip of
                         None \<Rightarrow> 1
                       | Some e \<Rightarrow> if e_date e \<noteq> today then 1 else e_count e + 1)\<rparr>"
    using assms(2) by (auto simp add: check_ip_limit_def split: option.splits if_splits)
  have n: "IP_LIMITS ?s1 ?ip \<noteq> IP_LIMITS s ?ip"
  proof (cases "IP_LIMITS s ?ip")
    case None
    with e show ?thesis by simp
  next
    case (Some x)
    show ?thesis
    proof
      assume "IP_LIMITS ?s1 ?ip = IP_LIMITS s ?ip"
      with e Some have x: "x = \<lparr>e_date = today,
          e_count = (if e_date x \<noteq> today then 1 else e_count x + 1)\<rparr>"
        by simp
      have "e_date x = today"
        by (subst x) simp
      moreover have "e_count x = (if e_date x \<noteq> today then 1 else e_count x + 1)"
        by (subst x) simp
      ultimately show False by simp
    qed
  qed
  have "0 < remaining today ?ip s"
    using assms(2) by (simp add: admits_iff_remaining)
  then have q: "remaining today ?ip ?s1 + 1 = remaining today ?ip s"
    by (simp add: remaining_same)
  from w c e n q show ?thesis
    by (simp add: check_ip_limit_frame)
qed

theorem rejected_submission_consumes_quota_witness:
  "http_code (fst (watch ''2026-11-03'' ''0123456789abcdef0123456789abcdef'' 0 alice_request
     alice_queued)) = Conflict \<and>
   DOWNLOADS (snd (watch ''2026-11-03'' ''0123456789abcdef0123456789abcdef'' 0 alice_request
     alice_queued)) = DOWNLOADS alice_queued \<and>
   IP_LIMITS alice_queued ''10.0.0.1'' = Some \<lparr>e_date = ''2026-11-03'', e_count = 1\<rparr> \<and>
   IP_LIMITS (snd (watch ''2026-11-03'' ''0123456789abcdef0123456789abcdef'' 0 alice_request
     alice_queued)) ''10.0.0.1'' = Some \<lparr>e_date = ''2026-11-03'', e_count = 2\<rparr>"
proof -
  let ?d = "''2026-11-03''" and ?u = "''0123456789abcdef0123456789abcdef''"
  have v: "truthy_str (q_v alice_request)"
    by (simp add: truthy_str_def alice_request_def)
  have a: "fst (check_ip_limit ?d (q_remote_addr alice_request) alice_queued)"
    by (simp add: check_ip_limit_def alice_request_def alice_queued_eq MAX_DOWNLOADS_PER_DAY_def)
  have l: "(requested_format alice_request \<noteq> ''mp4'' \<and> requested_format alice_request \<noteq> ''webm'') \<or>
      DOWNLOADS alice_queued (or_uuid (q_token alice_request) ?u) \<noteq> None"
    by (simp add: alice_request_def alice_queued_eq or_uuid_def)
  have i: "IP_LIMITS alice_queued ''10.0.0.1'' = Some \<lparr>e_date = ?d, e_count = 1\<rparr>"
    by (simp add: alice_queued_eq)
  have f: "requested_format alice_request = ''mp4''"
    by (simp add: requested_format_def alice_request_def lower_mp4)
  have n: "http_code (fst (watch ?d ?u 0 alice_request alice_queued)) \<noteq> BadRequest"
    using v a f i
    by (simp add: watch_present Let_def http_code_reject BadRequest_def alice_request_def
        or_uuid_def alice_queued_eq)
  note t = rejected_submission_consumes_quota [OF v a l, of 0]
  have r: "q_remote_addr alice_request = ''10.0.0.1''"
    by (simp add: alice_request_def)
  from t n have 1: "http_code (fst (watch ?d ?u 0 alice_request alice_queued)) = Conflict"
    by blast
  from t have 2: "DOWNLOADS (snd (watch ?d ?u 0 alice_request alice_queued)) = DOWNLOADS alice_queued"
    by blast
  from t have "IP_LIMITS (snd (watch ?d ?u 0 alice_request alice_queued)) (q_remote_addr alice_request) =
      Some \<lparr>e_date = ?d,
            e_count = (case IP_LIMITS alice_queued (q_remote_addr alice_request) of
                         None \<Rightarrow> 1
                       | Some e \<Rightarrow> if e_date e \<noteq> ?d then 1 else e_count e + 1)\<rparr>"
    by blast
  then have 3: "IP_LIMITS (snd (watch ?d ?u 0 alice_request alice_queued)) ''10.0.0.1'' =
      Some \<lparr>e_date = ?d, e_count = 2\<rparr>"
    by (simp add: r i)
  from 1 2 i 3 show ?thesis by blast
qed

section \<open>Empty tokens\<close>

lemma or_uuid_nonempty: "uuid \<noteq> [] \<Longrightarrow> or_uuid tok uuid \<noteq> []"
  by (simp add: or_uuid_def split: option.splits)

lemma or_uuid_empty: "or_uuid (Some []) uuid = or_uuid None uuid"
  by (simp add: or_uuid_def)

lemma watch_downloads_other:
  assumes "t \<noteq> or_uuid (q_token r) uuid"
  shows "DOWNLOADS (snd (watch today uuid now r s)) t = DOWNLOADS s t"
proof -
  obtain ok s1 where c: "check_ip_limit today (q_remote_addr r) s = (ok, s1)"
    by (cases "check_ip_limit today (q_remote_addr r) s")
  have f: "DOWNLOADS s1 = DOWNLOADS s"
    using check_ip_limit_frame(1) [of today "q_remote_addr r" s] c by simp
  show ?thesis
    using assms by (simp add: watch_def c f Let_def split: option.splits)
qed

lemma watch_https_downloads_other:
  assumes "t \<noteq> or_uuid (q_token r) uuid"
  shows "DOWNLOADS (snd (watch_https today uuid now r s)) t = DOWNLOADS s t"
proof -
  obtain ok s1 where c: "check_ip_limit today (q_remote_addr r) s = (ok, s1)"
    by (cases "check_ip_limit today (q_remote_addr r) s")
  have f: "DOWNLOADS s1 = DOWNLOADS s"
    using check_ip_limit_frame(1) [of today "q_remote_addr r" s] c by simp
  show ?thesis
    using assms by (simp add: watch_https_def c f Let_def split: option.splits)
qed

text \<open>
  Claim C10. In both files a submission whose token parameter is the empty string does
  exactly what the same submission without a token parameter does: the generated token is
  used. No submission ever stores a record under the empty string, provided the generated
  token is not empty (it is 32 hexadecimal digits).
\<close>

theorem empty_token_is_no_token:
  "watch today uuid now (r\<lparr>q_token := Some []\<rparr>) s = watch today uuid now (r\<lparr>q_token := None\<rparr>) s \<and>
   watch_https today uuid now (r\<lparr>q_token := Some []\<rparr>) s =
     watch_https today uuid now (r\<lparr>q_token := None\<rparr>) s \<and>
   or_uuid (Some []) uuid = uuid \<and>
   (uuid \<noteq> [] \<and> DOWNLOADS s [] = None \<longrightarrow>
      DOWNLOADS (snd (watch today uuid now r s)) [] = None \<and>
      DOWNLOADS (snd (watch_https today uuid now r s)) [] = None)"
proof (intro conjI impI)
  show "watch today uuid now (r\<lparr>q_token := Some []\<rparr>) s = watch today uuid now (r\<lparr>q_token := None\<rparr>) s"
    by (simp add: watch_def or_uuid_empty requested_format_def
        cong: option.case_cong if_cong)
  show "watch_https today uuid now (r\<lparr>q_token := Some []\<rparr>) s =
     watch_https today uuid now (r\<lparr>q_token := None\<rparr>) s"
    by (simp add: watch_https_def or_uuid_empty requested_format_def
        cong: option.case_cong if_cong)
  show "or_uuid (Some []) uuid = uuid"
    by (simp add: or_uuid_def)
next
  assume a: "uuid \<noteq> [] \<and> DOWNLOADS s [] = None"
  then have "[] \<noteq> or_uuid (q_token r) uuid"
    using or_uuid_nonempty [of uuid "q_token r"] by simp
  with a show "DOWNLOADS (snd (watch today uuid now r s)) [] = None"
    and "DOWNLOADS (snd (watch_https today uuid now r s)) [] = None"
    by (simp_all add: watch_downloads_other watch_https_downloads_other)
qed

theorem empty_token_is_no_token_witness:
  "DOWNLOADS state0 [] = None \<and>
   fst (watch ''2026-11-03'' ''0123456789abcdef0123456789abcdef'' 0
     (alice_request\<lparr>q_token := Some []\<rparr>) state0) = JsonQueued ''0123456789abcdef0123456789abcdef'' \<and>
   DOWNLOADS (snd (watch ''2026-11-03'' ''0123456789abcdef0123456789abcdef'' 0
     (alice_request\<lparr>q_token := Some []\<rparr>) state0)) [] = None"
proof -
  let ?d = "''2026-11-03''" and ?u = "''0123456789abcdef0123456789abcdef''"
  let ?r = "alice_request\<lparr>q_token := Some []\<rparr>"
  note t = empty_token_is_no_token [of ?d ?u 0 ?r state0]
  have u: "?u \<noteq> []" and z: "DOWNLOADS state0 [] = None"
    by (simp_all add: state0_def)
  have "fst (watch ?d ?u 0 (?r\<lparr>q_token := None\<rparr>) state0) = JsonQueued ?u"
    by (simp add: watch_def alice_request_def check_ip_limit_def state0_def requested_format_def
        lower_mp4 or_uuid_def Let_def)
  with t have 1: "fst (watch ?d ?u 0 ?r state0) = JsonQueued ?u"
    by simp
  from t u z have 2: "DOWNLOADS (snd (watch ?d ?u 0 ?r state0)) [] = None"
    by blast
  from z 1 2 show ?thesis by blast
qed

section \<open>The progress bridge\<close>

text \<open>\<open>round_half_even\<close> is the nearest integer, the even one of two.\<close>

lemma round_half_even_nearest:
  "\<bar>of_int (round_half_even x) - x\<bar> \<le> 1 / 2 \<and>
   (\<bar>of_int (round_half_even x) - x\<bar> = 1 / 2 \<longrightarrow> even (round_half_even x))"
proof -
  have "of_int \<lfloor>x\<rfloor> \<le> x" and "x < of_int \<lfloor>x\<rfloor> + 1"
    by linarith+
  then show ?thesis
    by (auto simp add: round_half_even_def Let_def)
qed

text \<open>
  Claim C7, as amended. On a live record, a ``downloading'' event makes \<^verbatim>\<open>progress_hook\<close>
  set the status to downloading and the byte count, speed and ETA to those of the event.
  The total is \<^verbatim>\<open>total_bytes\<close> when that is a number other than zero and
  \<^verbatim>\<open>total_bytes_estimate\<close> otherwise. When the total is a number other than zero, the
  percentage is \<^verbatim>\<open>round((downloaded / total) * 100, 2)\<close> with every operation in doubles
  and in this order: the quotient is rounded, then the product, then the result to two
  decimals. Otherwise the percentage is 0. A ``finished'' event sets the status to
  processing and the percentage to 100 and nothing else; any other event changes nothing;
  no event touches the record of another token.
\<close>

theorem progress_hook_double:
  assumes "DOWNLOADS s token = Some info"
  shows
    "(d_status d = ''downloading'' \<longrightarrow>
       (\<exists>info'. DOWNLOADS (progress_hook double token d s) token = Some info' \<and>
          i_status info' = Downloading \<and>
          i_downloaded_bytes info' = (case d_downloaded_bytes d of None \<Rightarrow> 0 | Some n \<Rightarrow> n) \<and>
          i_speed info' = d_speed d \<and> i_eta info' = d_eta d \<and>
          (\<forall>t. d_total_bytes d = Some t \<and> t \<noteq> 0 \<longrightarrow>
             i_total_bytes info' = Some t \<and>
             i_percent info' =
               double (of_int (round_half_even
                 (double (double ((case d_downloaded_bytes d of None \<Rightarrow> 0 | Some n \<Rightarrow> n) / t)
                    * 100) * 100)) / 100)) \<and>
          (\<forall>t. (d_total_bytes d = None \<or> d_total_bytes d = Some 0) \<and>
               d_total_bytes_estimate d = Some t \<and> t \<noteq> 0 \<longrightarrow>
             i_total_bytes info' = Some t \<and>
             i_percent info' =
               double (of_int (round_half_even
                 (double (double ((case d_downloaded_bytes d of None \<Rightarrow> 0 | Some n \<Rightarrow> n) / t)
                    * 100) * 100)) / 100)) \<and>
          ((d_total_bytes d = None \<or> d_total_bytes d = Some 0) \<and>
           (d_total_bytes_estimate d = None \<or> d_total_bytes_estimate d = Some 0) \<longrightarrow>
             i_total_bytes info' = d_total_bytes_estimate d \<and> i_percent info' = 0) \<and>
          i_token info' = i_token info \<and> i_ip info' = i_ip info \<and>
          i_video_id info' = i_video_id info \<and> i_format info' = i_format info \<and>
          i_started info' = i_started info \<and> i_file info' = i_file info \<and>
          i_error info' = i_error info)) \<and>
     (d_status d = ''finished'' \<longrightarrow>
        DOWNLOADS (progress_hook double token d s) token =
          Some (info\<lparr>i_status := Processing, i_percent := 100\<rparr>)) \<and>
     (d_status d \<noteq> ''downloading'' \<and> d_status d \<noteq> ''finished'' \<longrightarrow>
        progress_hook double token d s = s) \<and>
     (\<forall>other. other \<noteq> token \<longrightarrow>
        DOWNLOADS (progress_hook double token d s) other = DOWNLOADS s other)"
proof (intro conjI impI allI)
  assume "d_status d = ''downloading''"
  then show "\<exists>info'. DOWNLOADS (progress_hook double token d s) token = Some info' \<and>
          i_status info' = Downloading \<and>
          i_downloaded_bytes info' = (case d_downloaded_bytes d of None \<Rightarrow> 0 | Some n \<Rightarrow> n) \<and>
          i_speed info' = d_speed d \<and> i_eta info' = d_eta d \<and>
          (\<forall>t. d_total_bytes d = Some t \<and> t \<noteq> 0 \<longrightarrow>
             i_total_bytes info' = Some t \<and>
             i_percent info' =
               double (of_int (round_half_even
                 (double (double ((case d_downloaded_bytes d of None \<Rightarrow> 0 | Some n \<Rightarrow> n) / t)
                    * 100) * 100)) / 100)) \<and>
          (\<forall>t. (d_total_bytes d = None \<or> d_total_bytes d = Some 0) \<and>
               d_total_bytes_estimate d = Some t \<and> t \<noteq> 0 \<longrightarrow>
             i_total_bytes info' = Some t \<and>
             i_percent info' =
               double (of_int (round_half_even
                 (double (double ((case d_downloaded_bytes d of None \<Rightarrow> 0 | Some n \<Rightarrow> n) / t)
                    * 100) * 100)) / 100)) \<and>
          ((d_total_bytes d = None \<or> d_total_bytes d = Some 0) \<and>
           (d_total_bytes_estimate d = None \<or> d_total_bytes_estimate d = Some 0) \<longrightarrow>
             i_total_bytes info' = d_total_bytes_estimate d \<and> i_percent info' = 0) \<and>
          i_token info' = i_token info \<and> i_ip info' = i_ip info \<and>
          i_video_id info' = i_video_id info \<and> i_format info' = i_format info \<and>
          i_started info' = i_started info \<and> i_file info' = i_file info \<and>
          i_error info' = i_error info"
    using assms
    by (auto simp add: progress_hook_def Let_def py_or_def truthy_def py_round2_def)
next
  assume "d_status d = ''finished''"
  then show "DOWNLOADS (progress_hook double token d s) token =
      Some (info\<lparr>i_status := Processing, i_percent := 100\<rparr>)"
    using assms by (simp add: progress_hook_def)
next
  assume "d_status d \<noteq> ''downloading'' \<and> d_status d \<noteq> ''finished''"
  then show "progress_hook double token d s = s"
    using assms by (simp add: progress_hook_def)
next
  fix other
  assume "other \<noteq> token"
  then show "DOWNLOADS (progress_hook double token d s) other = DOWNLOADS s other"
    by (simp add: progress_hook_def Let_def split: option.splits)
qed

lemma percent_23_of_160:
  "double (of_int (round_half_even (double (double (23 / 160) * 100) * 100)) / 100) =
     8089590830664253 / 562949953421312"
  "double (1437 / 100) = 8089590830664253 / 562949953421312"
  "claimed_percent 23 160 = 8095220330198467 / 562949953421312"
  "double (1438 / 100) = 8095220330198467 / 562949953421312"
  "spec_percent 23 160 = 1438 / 100"
  by code_simp+

text \<open>
  The claim as stated fails: at 23 of 160 bytes the hook stores 14.37, and
  \<open>round(100 * downloaded / total, 2)\<close> is 14.38, in doubles as in exact arithmetic
  (the quotient 0.14375 is not a double, and its product with 100 falls below 14.375).
\<close>

theorem percent_in_doubles_counterexample:
  "map_option i_percent (DOWNLOADS (progress_hook double ''T'' event_23_of_160 alice_queued) ''T'')
     = Some (double (1437 / 100)) \<and>
   claimed_percent 23 160 = double (1438 / 100) \<and>
   spec_percent 23 160 = 1438 / 100 \<and>
   double (1437 / 100) \<noteq> double (1438 / 100)"
proof -
  have "map_option i_percent
      (DOWNLOADS (progress_hook double ''T'' event_23_of_160 alice_queued) ''T'') =
      Some (double (of_int (round_half_even (double (double (23 / 160) * 100) * 100)) / 100))"
    by (simp add: progress_hook_def Let_def event_23_of_160_def alice_queued_eq py_or_def
        truthy_def py_round2_def)
  then have "map_option i_percent
      (DOWNLOADS (progress_hook double ''T'' event_23_of_160 alice_queued) ''T'') =
      Some (double (1437 / 100))"
    by (simp only: percent_23_of_160)
  moreover have "claimed_percent 23 160 = double (1438 / 100)"
    by (simp only: percent_23_of_160)
  moreover have "double (1437 / 100) \<noteq> double (1438 / 100)"
    by code_simp
  ultimately show ?thesis
    using percent_23_of_160(5) by blast
qed


lemma percent_1_of_3:
  "double (of_int (round_half_even (double (double (1 / 3) * 100) * 100)) / 100) =
     double (3333 / 100)"
  by code_simp

theorem progress_hook_double_witness:
  "map_option i_status (DOWNLOADS (progress_hook double ''T'' third_event alice_queued) ''T'')
     = Some Downloading \<and>
   map_option i_total_bytes (DOWNLOADS (progress_hook double ''T'' third_event alice_queued) ''T'')
     = Some (Some 3) \<and>
   map_option i_percent (DOWNLOADS (progress_hook double ''T'' third_event alice_queued) ''T'')
     = Some (double (3333 / 100)) \<and>
   map_option i_status (DOWNLOADS (progress_hook double ''T'' finished_event alice_queued) ''T'')
     = Some Processing \<and>
   map_option i_percent (DOWNLOADS (progress_hook double ''T'' finished_event alice_queued) ''T'')
     = Some 100"
proof -
  let ?i = "new_info ''T'' ''10.0.0.1'' ''abc123'' ''mp4'' 0"
  have a: "DOWNLOADS alice_queued ''T'' = Some ?i"
    by (simp add: alice_queued_eq)
  note t = progress_hook_double [OF a, of third_event]
  note f = progress_hook_double [OF a, of finished_event]
  have d: "d_status third_event = ''downloading''"
    and e: "(d_total_bytes third_event = None \<or> d_total_bytes third_event = Some 0) \<and>
            d_total_bytes_estimate third_event = Some 3 \<and> (3::rat) \<noteq> 0"
    and n: "(case d_downloaded_bytes third_event of None \<Rightarrow> 0 | Some n \<Rightarrow> n) = 1"
    by (simp_all add: third_event_def)
  from t d obtain j where j: "DOWNLOADS (progress_hook double ''T'' third_event alice_queued) ''T'' = Some j"
    "i_status j = Downloading"
    "\<forall>t. (d_total_bytes third_event = None \<or> d_total_bytes third_event = Some 0) \<and>
         d_total_bytes_estimate third_event = Some t \<and> t \<noteq> 0 \<longrightarrow>
       i_total_bytes j = Some t \<and>
       i_percent j =
         double (of_int (round_half_even
           (double (double ((case d_downloaded_bytes third_event of None \<Rightarrow> 0 | Some n \<Rightarrow> n) / t)
              * 100) * 100)) / 100)"
    by blast
  from j(3) e have "i_total_bytes j = Some 3 \<and>
       i_percent j =
         double (of_int (round_half_even
           (double (double ((case d_downloaded_bytes third_event of None \<Rightarrow> 0 | Some n \<Rightarrow> n) / 3)
              * 100) * 100)) / 100)"
    by blast
  then have "i_total_bytes j = Some 3" and "i_percent j = double (3333 / 100)"
    by (simp_all only: n percent_1_of_3)
  with j(1,2) have 1: "map_option i_status
      (DOWNLOADS (progress_hook double ''T'' third_event alice_queued) ''T'') = Some Downloading"
    and 2: "map_option i_total_bytes
      (DOWNLOADS (progress_hook double ''T'' third_event alice_queued) ''T'') = Some (Some 3)"
    and 3: "map_option i_percent
      (DOWNLOADS (progress_hook double ''T'' third_event alice_queued) ''T'') = Some (double (3333 / 100))"
    by simp_all
  have "d_status finished_event = ''finished''"
    by (simp add: finished_event_def)
  with f have "DOWNLOADS (progress_hook double ''T'' finished_event alice_queued) ''T'' =
      Some (?i\<lparr>i_status := Processing, i_percent := 100\<rparr>)"
    by blast
  then have 4: "map_option i_status
      (DOWNLOADS (progress_hook double ''T'' finished_event alice_queued) ''T'') = Some Processing"
    and 5: "map_option i_percent
      (DOWNLOADS (progress_hook double ''T'' finished_event alice_queued) ''T'') = Some 100"
    by simp_all
  from 1 2 3 4 5 show ?thesis by blast
qed

section \<open>The order of statuses\<close>

lemma observed_append: "observed token (xs @ ys) = observed token xs @ observed token ys"
  by (induction xs) (simp_all split: option.splits)

lemma progress_hook_status:
  assumes "DOWNLOADS s token = Some info"
  shows "\<exists>info'. DOWNLOADS (progress_hook fl token d s) token = Some info' \<and>
           i_status info' =
             (if d_status d = ''downloading'' then Downloading
              else if d_status d = ''finished'' then Processing
              else i_status info)"
  using assms by (simp add: progress_hook_def Let_def)

lemma hook_trace_sorted:
  assumes "DOWNLOADS s token = Some info"
    and "status_rank (i_status info) \<le> 2"
    and "i_status info = Processing \<longrightarrow> (\<forall>e \<in> set events. d_status e \<noteq> ''downloading'')"
    and "phase_ordered events"
  shows "sorted (map status_rank (observed token (hook_trace fl token events s))) \<and>
         (\<forall>x \<in> set (observed token (hook_trace fl token events s)).
            status_rank (i_status info) \<le> status_rank x \<and> status_rank x \<le> 2)"
  using assms
proof (induction events arbitrary: s info)
  case Nil
  then show ?case by simp
next
  case (Cons d ds)
  let ?s' = "progress_hook fl token d s"
  from progress_hook_status [OF Cons.prems(1), of fl d]
  obtain info' where i: "DOWNLOADS ?s' token = Some info'"
    and st: "i_status info' =
             (if d_status d = ''downloading'' then Downloading
              else if d_status d = ''finished'' then Processing
              else i_status info)"
    by blast
  have r2: "status_rank (i_status info') \<le> 2"
    using st Cons.prems(2) by simp
  have mono: "status_rank (i_status info) \<le> status_rank (i_status info')"
  proof (cases "d_status d = ''downloading''")
    case True
    with Cons.prems(3) have "i_status info \<noteq> Processing" by auto
    with Cons.prems(2) have "status_rank (i_status info) \<le> 1"
      by (cases "i_status info") simp_all
    with True st show ?thesis by simp
  next
    case False
    with st Cons.prems(2) show ?thesis by simp
  qed
  have nd: "i_status info' = Processing \<longrightarrow> (\<forall>e \<in> set ds. d_status e \<noteq> ''downloading'')"
  proof (cases "d_status d = ''downloading''")
    case True
    with st show ?thesis by simp
  next
    case False
    show ?thesis
    proof (cases "d_status d = ''finished''")
      case True
      with Cons.prems(4) show ?thesis by simp
    next
      case nf: False
      with False st have "i_status info' = i_status info" by simp
      with Cons.prems(3) show ?thesis by simp
    qed
  qed
  from Cons.prems(4) have po: "phase_ordered ds" by simp
  from Cons.IH [OF i r2 nd po]
  have ih: "sorted (map status_rank (observed token (hook_trace fl token ds ?s')))"
    and bd: "\<forall>x \<in> set (observed token (hook_trace fl token ds ?s')).
            status_rank (i_status info') \<le> status_rank x \<and> status_rank x \<le> 2"
    by blast+
  from bd mono have bd': "\<forall>x \<in> set (observed token (hook_trace fl token ds ?s')).
            status_rank (i_status info) \<le> status_rank x \<and> status_rank x \<le> 2"
    by auto
  show ?case
    using ih bd' Cons.prems(1,2) by simp
qed

lemma worker_try_present:
  "DOWNLOADS s token = Some i \<Longrightarrow>
   \<exists>s' i'. worker_try token fmt s = Inr s' \<and> DOWNLOADS s' token = Some i' \<and> i_status i' = Done"
  by (simp add: worker_try_def bind_exn_def setitem_def schedule_delete_def
      schedule_token_expire_def)

lemma download_worker_final:
  assumes "DOWNLOADS s token = Some info"
  shows "\<exists>s' i'. download_worker fl token fmt events outcome s = Inr s' \<and>
           DOWNLOADS s' token = Some i' \<and> 3 \<le> status_rank (i_status i')"
proof -
  let ?s1 = "run_hooks fl token events s"
  from assms have "DOWNLOADS ?s1 token \<noteq> None"
    by (simp add: run_hooks_present)
  then obtain j where j: "DOWNLOADS ?s1 token = Some j"
    by blast
  show ?thesis
  proof (cases outcome)
    case Returned
    from worker_try_present [OF j, of fmt] obtain s' i' where
      "worker_try token fmt ?s1 = Inr s'" "DOWNLOADS s' token = Some i'" "i_status i' = Done"
      by blast
    with Returned show ?thesis
      by (simp add: download_worker_def)
  next
    case (Raised msg)
    then show ?thesis
      by (simp add: download_worker_def worker_except_present [OF j])
  qed
qed

text \<open>
  Claim C2, as amended. When the engine reports no ``downloading'' event after a
  ``finished'' event, the statuses that a job's record shows, from the queued record that
  \<^verbatim>\<open>watch\<close> created to the worker's final mutation, never decrease in the order queued,
  downloading, processing, done, with error last.
\<close>

theorem status_order_single_stream:
  assumes "DOWNLOADS s token = Some info"
    and "i_status info = Queued"
    and "phase_ordered events"
  shows "sorted (map status_rank (observed token (worker_trace fl token fmt events outcome s)))"
proof -
  from assms(2) have r: "status_rank (i_status info) \<le> 2"
    and n: "i_status info = Processing \<longrightarrow> (\<forall>e \<in> set events. d_status e \<noteq> ''downloading'')"
    by simp_all
  from hook_trace_sorted [OF assms(1) r n assms(3), of fl]
  have h: "sorted (map status_rank (observed token (hook_trace fl token events s)))"
    and b: "\<forall>x \<in> set (observed token (hook_trace fl token events s)). status_rank x \<le> 2"
    by blast+
  from download_worker_final [OF assms(1), of fl fmt events outcome]
  obtain s' i' where f: "download_worker fl token fmt events outcome s = Inr s'"
    "DOWNLOADS s' token = Some i'" "3 \<le> status_rank (i_status i')"
    by blast
  from b f(3) have "\<forall>x \<in> set (observed token (hook_trace fl token events s)).
      status_rank x \<le> status_rank (i_status i')"
    by auto
  with h f show ?thesis
    by (simp add: worker_trace_def observed_append sorted_append)
qed

text \<open>
  The claim as stated fails: the hook writes ``downloading'' on every such event, whatever
  the record's status. The engine fetches video and audio one after the other, so a
  ``finished'' event is followed by the ``downloading'' events of the next stream, and the
  record goes from processing back to downloading.
\<close>

theorem status_regression_counterexample:
  "phase_ordered [finished_event, third_event] = False \<and>
   observed ''T'' (worker_trace (\<lambda>x. x) ''T'' ''mp4'' [finished_event, third_event] Returned
     alice_queued) = [Queued, Processing, Downloading, Done] \<and>
   \<not> sorted (map status_rank (observed ''T''
     (worker_trace (\<lambda>x. x) ''T'' ''mp4'' [finished_event, third_event] Returned alice_queued)))"
proof -
  have o: "observed ''T'' (worker_trace (\<lambda>x. x) ''T'' ''mp4'' [finished_event, third_event] Returned
     alice_queued) = [Queued, Processing, Downloading, Done]"
    by (simp add: worker_trace_def download_worker_def worker_try_def bind_exn_def setitem_def
        schedule_delete_def schedule_token_expire_def progress_hook_def Let_def
        finished_event_def third_event_def alice_queued_eq new_info_def)
  have p: "phase_ordered [finished_event, third_event] = False"
    by (simp add: finished_event_def third_event_def)
  from o p show ?thesis by simp
qed

theorem status_order_single_stream_witness:
  "phase_ordered [third_event, finished_event] \<and>
   sorted (map status_rank (observed ''T''
     (worker_trace (\<lambda>x. x) ''T'' ''mp4'' [third_event, finished_event] Returned alice_queued))) \<and>
   observed ''T'' (worker_trace (\<lambda>x. x) ''T'' ''mp4'' [third_event, finished_event] Returned
     alice_queued) = [Queued, Downloading, Processing, Done]"
proof -
  let ?i = "new_info ''T'' ''10.0.0.1'' ''abc123'' ''mp4'' 0"
  have a: "DOWNLOADS alice_queued ''T'' = Some ?i"
    by (simp add: alice_queued_eq)
  have q: "i_status ?i = Queued"
    by (simp add: new_info_def)
  have p: "phase_ordered [third_event, finished_event]"
    by (simp add: finished_event_def third_event_def)
  have o: "observed ''T'' (worker_trace (\<lambda>x. x) ''T'' ''mp4'' [third_event, finished_event] Returned
     alice_queued) = [Queued, Downloading, Processing, Done]"
    by (simp add: worker_trace_def download_worker_def worker_try_def bind_exn_def setitem_def
        schedule_delete_def schedule_token_expire_def progress_hook_def Let_def
        finished_event_def third_event_def alice_queued_eq new_info_def)
  from status_order_single_stream [OF a q p, of "\<lambda>x. x" "''mp4''" Returned] p o
  show ?thesis by blast
qed

section \<open>Reachable states\<close>

lemma watch_https_state: "snd (watch_https today uuid now r s) = snd (watch today uuid now r s)"
proof -
  obtain ok s1 where c: "check_ip_limit today (q_remote_addr r) s = (ok, s1)"
    by (cases "check_ip_limit today (q_remote_addr r) s")
  show ?thesis
    by (simp add: watch_def watch_https_def c Let_def split: option.splits)
qed

lemma watch_effect:
  "(DOWNLOADS (snd (watch today uuid now r s)) = DOWNLOADS s \<and>
    submitted (snd (watch today uuid now r s)) = submitted s \<and>
    timers (snd (watch today uuid now r s)) = timers s) \<or>
   (\<exists>tok i j. DOWNLOADS s tok = None \<and>
      DOWNLOADS (snd (watch today uuid now r s)) = (DOWNLOADS s)(tok \<mapsto> i) \<and>
      submitted (snd (watch today uuid now r s)) = submitted s @ [j] \<and> j_token j = tok \<and>
      timers (snd (watch today uuid now r s)) = timers s)"
proof (cases "truthy_str (q_v r)")
  case False
  then show ?thesis by (simp add: watch_missing)
next
  case True
  show ?thesis
    by (auto simp add: watch_present [OF True] Let_def check_ip_limit_frame)
qed

lemma expire_tokens_append: "expire_tokens (xs @ ys) = expire_tokens xs @ expire_tokens ys"
  by (induction xs rule: expire_tokens.induct) simp_all

lemma refs_live_submit:
  assumes "refs_live s"
  shows "refs_live (snd (watch_of v today uuid now r s))"
proof -
  let ?s' = "snd (watch today uuid now r s)"
  have w: "snd (watch_of v today uuid now r s) = ?s'"
    by (cases v) (simp_all add: watch_of_def watch_https_state)
  from watch_effect [of today uuid now r s] have "refs_live ?s'"
  proof
    assume "DOWNLOADS ?s' = DOWNLOADS s \<and> submitted ?s' = submitted s \<and> timers ?s' = timers s"
    with assms show ?thesis by (simp add: refs_live_def refs_def)
  next
    assume "\<exists>tok i j. DOWNLOADS s tok = None \<and> DOWNLOADS ?s' = (DOWNLOADS s)(tok \<mapsto> i) \<and>
      submitted ?s' = submitted s @ [j] \<and> j_token j = tok \<and> timers ?s' = timers s"
    then obtain tok i j where e: "DOWNLOADS s tok = None" "DOWNLOADS ?s' = (DOWNLOADS s)(tok \<mapsto> i)"
      "submitted ?s' = submitted s @ [j]" "j_token j = tok" "timers ?s' = timers s"
      by blast
    from assms e(1) have n: "tok \<notin> set (refs s)"
      by (auto simp add: refs_live_def list_all_iff)
    with assms e show ?thesis
      by (auto simp add: refs_live_def refs_def list_all_iff)
  qed
  with w show ?thesis by simp
qed

lemma progress_hook_frame:
  "submitted (progress_hook fl token d s) = submitted s"
  "timers (progress_hook fl token d s) = timers s"
  "(DOWNLOADS (progress_hook fl token d s) t = None) = (DOWNLOADS s t = None)"
  by (simp_all add: progress_hook_def Let_def split: option.splits)

lemma refs_live_callback: "refs_live s \<Longrightarrow> refs_live (progress_hook fl token d s)"
  by (simp add: refs_live_def refs_def progress_hook_frame list_all_iff)

lemma worker_of_live:
  assumes "DOWNLOADS s token \<noteq> None"
  shows "\<exists>s'. worker_of v fl token fmt [] outcome s = Inr s' \<and>
           submitted s' = submitted s \<and>
           (\<forall>t. (DOWNLOADS s' t = None) = (DOWNLOADS s t = None)) \<and>
           expire_tokens (timers s') =
             expire_tokens (timers s) @ (case outcome of Returned \<Rightarrow> [token] | Raised m \<Rightarrow> [])"
proof -
  from assms obtain i where i: "DOWNLOADS s token = Some i"
    by blast
  show ?thesis
    by (cases v; cases outcome)
      (simp_all add: worker_of_def download_worker_def download_worker_https_def
        worker_try_def worker_try_https_def worker_except_def worker_except_https_def
        bind_exn_def setitem_def schedule_delete_def schedule_token_expire_def i
        expire_tokens_append)
qed

lemma delete_nth_split:
  "k < length xs \<Longrightarrow> xs = take k xs @ xs ! k # drop (Suc k) xs"
  by (rule id_take_nth_drop)

lemma refs_live_finish:
  assumes "refs_live s" and "k < length (submitted s)"
  shows "\<exists>s'. worker_of v fl (j_token (submitted s ! k)) (j_fmt (submitted s ! k)) [] outcome s = Inr s' \<and>
           refs_live (s'\<lparr>submitted := delete_nth k (submitted s')\<rparr>)"
proof -
  let ?j = "submitted s ! k"
  let ?A = "take k (submitted s)" and ?B = "drop (Suc k) (submitted s)"
  have sp: "submitted s = ?A @ ?j # ?B"
    using assms(2) by (rule delete_nth_split)
  have m: "map j_token (submitted s) = map j_token ?A @ j_token ?j # map j_token ?B"
    by (subst sp) simp
  from assms(1) m have live: "DOWNLOADS s (j_token ?j) \<noteq> None"
    by (simp add: refs_live_def refs_def list_all_iff)
  from worker_of_live [OF live, of v fl "j_fmt ?j" outcome]
  obtain s' where s': "worker_of v fl (j_token ?j) (j_fmt ?j) [] outcome s = Inr s'"
    "submitted s' = submitted s"
    "\<forall>t. (DOWNLOADS s' t = None) = (DOWNLOADS s t = None)"
    "expire_tokens (timers s') =
       expire_tokens (timers s) @ (case outcome of Returned \<Rightarrow> [j_token ?j] | Raised m \<Rightarrow> [])"
    by blast
  have d: "distinct (map j_token ?A @ j_token ?j # map j_token ?B @ expire_tokens (timers s))"
    and l: "\<forall>tok \<in> set (map j_token ?A @ j_token ?j # map j_token ?B @ expire_tokens (timers s)).
        DOWNLOADS s tok \<noteq> None"
    using assms(1) m by (simp_all add: refs_live_def refs_def list_all_iff)
  have "refs_live (s'\<lparr>submitted := delete_nth k (submitted s')\<rparr>)"
    using d l s'(2,3,4)
    by (cases outcome) (auto simp add: refs_live_def refs_def delete_nth_def list_all_iff)
  with s'(1) show ?thesis by blast
qed

lemma refs_live_wake:
  assumes "refs_live s" and "k < length (timers s)"
  shows "refs_live ((fire (timers s ! k) s)\<lparr>timers := delete_nth k (timers s)\<rparr>)"
proof -
  let ?t = "timers s ! k"
  let ?A = "take k (timers s)" and ?B = "drop (Suc k) (timers s)"
  have sp: "timers s = ?A @ ?t # ?B"
    using assms(2) by (rule delete_nth_split)
  have e: "expire_tokens (timers s) = expire_tokens ?A @ expire_tokens (?t # ?B)"
    by (subst sp) (simp add: expire_tokens_append)
  show ?thesis
  proof (cases ?t)
    case (FileDelete path delay)
    with assms(1) e show ?thesis
      by (simp add: refs_live_def refs_def fire_def delete_nth_def expire_tokens_append)
  next
    case (TokenExpire tok delay)
    with assms(1) e show ?thesis
      by (auto simp add: refs_live_def refs_def fire_def delete_nth_def expire_tokens_append
          list_all_iff)
  qed
qed

lemma refs_live_step:
  assumes "refs_live (sv_state sv)"
  shows "refs_live (sv_state (step v fl ta sv))"
proof (cases "fst ta < sv_clock sv")
  case True
  with assms show ?thesis by (simp add: step_def)
next
  case False
  show ?thesis
  proof (cases "snd ta")
    case (Submit today uuid r)
    with False assms show ?thesis
      by (simp add: step_def do_submit_def Let_def refs_live_submit)
  next
    case (Callback k d)
    with False assms show ?thesis
      by (simp add: step_def do_callback_def Let_def refs_live_callback)
  next
    case (Finish k outcome)
    show ?thesis
    proof (cases "k < length (submitted (sv_state sv))")
      case True
      from refs_live_finish [OF assms True, of v fl outcome]
      obtain s' where "worker_of v fl (j_token (submitted (sv_state sv) ! k))
          (j_fmt (submitted (sv_state sv) ! k)) [] outcome (sv_state sv) = Inr s'"
        "refs_live (s'\<lparr>submitted := delete_nth k (submitted s')\<rparr>)"
        by blast
      with False Finish True show ?thesis
        by (simp add: step_def do_finish_def Let_def)
    next
      case nk: False
      with False Finish assms show ?thesis
        by (simp add: step_def do_finish_def Let_def)
    qed
  next
    case (Wake k)
    with False assms show ?thesis
      by (simp add: step_def do_wake_def Let_def refs_live_wake)
  qed
qed

lemma refs_live_run: "refs_live (sv_state sv) \<Longrightarrow> refs_live (sv_state (run v fl tas sv))"
  by (induction tas arbitrary: sv) (simp_all add: refs_live_step)

lemma refs_live_service0: "refs_live (sv_state service0)"
  by (simp add: service0_def state0_def refs_live_def refs_def)

lemma pending_token_live:
  assumes "refs_live s" and "k < length (submitted s)"
  shows "DOWNLOADS s (j_token (submitted s ! k)) \<noteq> None"
  using assms by (simp add: refs_live_def refs_def list_all_iff)

lemma download_worker_https_live:
  assumes "DOWNLOADS s token \<noteq> None"
  shows "\<exists>s'. download_worker_https fl token fmt events outcome s = Inr s'"
proof -
  from assms have "DOWNLOADS (run_hooks fl token events s) token \<noteq> None"
    by (rule run_hooks_present)
  then obtain j where j: "DOWNLOADS (run_hooks fl token events s) token = Some j"
    by blast
  show ?thesis
    by (cases outcome)
      (simp_all add: download_worker_https_def worker_try_https_def
        worker_except_https_present [OF j] bind_exn_def setitem_def j Let_def)
qed

text \<open>
  Claim C4. On a token that is not in the registry, the progress hook (the same in both
  files) returns the state as it is, and in \<^verbatim>\<open>src/app.py\<close> so do the worker's final
  mutation and its handler, which are guarded: the registry is unchanged and nothing is
  raised. The worker of the HTTPS variant has no such guard and needs none: in every state
  that the service can reach, the token of every job that has not ended is in the registry
  (a token is popped only by the timer that the job's own final mutation arms), so this
  worker's final mutation finds its record and returns without an exception.
\<close>

theorem purged_token_mutations:
  "(DOWNLOADS s token = None \<longrightarrow>
      progress_hook fl token d s = s \<and>
      worker_except token msg s = Inr s \<and>
      (\<exists>s'. worker_try token fmt s = Inr s' \<and> DOWNLOADS s' = DOWNLOADS s) \<and>
      (\<exists>s'. download_worker fl token fmt events outcome s = Inr s' \<and> DOWNLOADS s' = DOWNLOADS s)) \<and>
   (k < length (submitted (sv_state (run Https fl acts service0))) \<longrightarrow>
      DOWNLOADS (sv_state (run Https fl acts service0))
        (j_token (submitted (sv_state (run Https fl acts service0)) ! k)) \<noteq> None \<and>
      (\<exists>s'. download_worker_https fl
               (j_token (submitted (sv_state (run Https fl acts service0)) ! k))
               (j_fmt (submitted (sv_state (run Https fl acts service0)) ! k))
               events outcome (sv_state (run Https fl acts service0)) = Inr s'))"
proof (intro conjI impI)
  assume a: "DOWNLOADS s token = None"
  from purged_token_noop [OF a]
  show "progress_hook fl token d s = s"
    and "worker_except token msg s = Inr s"
    and "\<exists>s'. worker_try token fmt s = Inr s' \<and> DOWNLOADS s' = DOWNLOADS s"
    and "\<exists>s'. download_worker fl token fmt events outcome s = Inr s' \<and> DOWNLOADS s' = DOWNLOADS s"
    by blast+
next
  let ?s = "sv_state (run Https fl acts service0)"
  assume k: "k < length (submitted ?s)"
  have r: "refs_live ?s"
    using refs_live_service0 by (rule refs_live_run)
  from pending_token_live [OF r k]
  show l: "DOWNLOADS ?s (j_token (submitted ?s ! k)) \<noteq> None" .
  from download_worker_https_live [OF l]
  show "\<exists>s'. download_worker_https fl (j_token (submitted ?s ! k)) (j_fmt (submitted ?s ! k))
      events outcome ?s = Inr s'" .
qed

theorem purged_token_mutations_witness:
  "DOWNLOADS state0 ''T'' = None \<and>
   progress_hook double ''T'' third_event state0 = state0 \<and>
   (\<exists>s'. download_worker double ''T'' ''mp4'' [third_event] Returned state0 = Inr s' \<and>
      DOWNLOADS s' = DOWNLOADS state0) \<and>
   0 < length (submitted (sv_state (run Https double (take 1 reuse_run_https) service0))) \<and>
   (\<exists>s'. download_worker_https double
      (j_token (submitted (sv_state (run Https double (take 1 reuse_run_https) service0)) ! 0))
      (j_fmt (submitted (sv_state (run Https double (take 1 reuse_run_https) service0)) ! 0))
      [third_event] Returned (sv_state (run Https double (take 1 reuse_run_https) service0)) = Inr s')"
proof -
  have a: "DOWNLOADS state0 ''T'' = None"
    by (simp add: state0_def)
  have k: "0 < length (submitted (sv_state (run Https double (take 1 reuse_run_https) service0)))"
    by code_simp
  note t = purged_token_mutations [of state0 "''T''" double third_event _ "''mp4''" "[third_event]"
      Returned 0 "take 1 reuse_run_https"]
  from t a k show ?thesis by blast
qed

end
